theory Spec2Isabelle
  imports Complex_Main "HOL-Library.Word"
begin

section \<open>Failures\<close>

text \<open>
  Every \<open>throw\<close> of the driver and every exception the JavaScript platform raises on its
  behalf is a value. \<open>TypeError\<close> is what reading a property of \<open>undefined\<close> raises,
  \<open>RangeError\<close> what \<open>TypedArray.set\<close> raises on a source longer than its target,
  \<open>IndexSizeError\<close> what \<open>new ImageData\<close> raises on a zero dimension,
  \<open>InvalidStateError\<close> what \<open>drawImage\<close> raises on a source canvas with a zero
  dimension, and \<open>Error msg\<close> is the driver's own \<open>throw new Error(msg)\<close>.
\<close>

datatype error = TypeError | RangeError | IndexSizeError | InvalidStateError | Error string

section \<open>Canvas: the drawing target behind a Surface\<close>

type_synonym byte = "8 word"

text \<open>A pixel is its red, green, blue and alpha byte, as \<open>ImageData\<close> lays them out.\<close>

type_synonym pixel = "byte \<times> byte \<times> byte \<times> byte"

record canvas =
  cv_width :: nat
  cv_height :: nat
  bitmap :: "pixel list"

text \<open>The bitmap is row-major and holds one pixel per position: its length is
  \<open>cv_width * cv_height\<close> in every canvas the constructor and the methods below make.\<close>

fun pixels_of :: "byte list \<Rightarrow> pixel list" where
  "pixels_of (r # g # b # a # rest) = (r, g, b, a) # pixels_of rest"
| "pixels_of _ = []"

fun bytes_of :: "pixel list \<Rightarrow> byte list" where
  "bytes_of [] = []"
| "bytes_of ((r, g, b, a) # ps) = r # g # b # a # bytes_of ps"

text \<open>What \<open>getImageData(0, 0, width, height).data\<close> reads back.\<close>

definition contents :: "canvas \<Rightarrow> byte list" where
  "contents c = bytes_of (bitmap c)"

text \<open>Assigning \<open>canvas.width\<close> and \<open>canvas.height\<close> clears the bitmap to transparent black.\<close>

definition blank_canvas :: "nat \<Rightarrow> nat \<Rightarrow> canvas" where
  "blank_canvas w h = \<lparr>cv_width = w, cv_height = h, bitmap = replicate (w * h) (0, 0, 0, 0)\<rparr>"

text \<open>\<open>ctx.fillStyle = 'black'; ctx.fillRect(0, 0, rw, rh)\<close>: opaque black inside the
  rectangle, clipped to the canvas.\<close>

definition fillRect_black :: "nat \<Rightarrow> nat \<Rightarrow> canvas \<Rightarrow> canvas" where
  "fillRect_black rw rh c =
     c\<lparr>bitmap :=
         map (\<lambda>i. if i mod cv_width c < rw \<and> i div cv_width c < rh
                   then (0, 0, 0, 255) else bitmap c ! i)
             [0..<cv_width c * cv_height c]\<rparr>"

text \<open>\<open>new ImageData(w, h)\<close>: \<open>4 * w * h\<close> zero bytes, or an exception on a zero dimension.\<close>

definition ImageData :: "nat \<Rightarrow> nat \<Rightarrow> error + byte list" where
  "ImageData w h = (if w = 0 \<or> h = 0 then Inl IndexSizeError else Inr (replicate (4 * w * h) 0))"

text \<open>\<open>target.set(source)\<close> on typed arrays: the source overwrites a prefix of the target;
  a source longer than the target raises.\<close>

definition typed_array_set :: "byte list \<Rightarrow> byte list \<Rightarrow> error + byte list" where
  "typed_array_set target source =
     (if length target < length source then Inl RangeError
      else Inr (source @ drop (length source) target))"

text \<open>
  The canvas stores colour premultiplied by alpha, so what is put is not always what is
  read back: a fully opaque pixel (alpha 255) is kept byte for byte, a fully transparent
  pixel (alpha 0) loses its colour and reads back as four zero bytes, and a partially
  transparent pixel comes back rounded in a way that is the browser's business, the
  parameter \<open>lossy\<close>.
\<close>

definition stored :: "(pixel \<Rightarrow> pixel) \<Rightarrow> pixel \<Rightarrow> pixel" where
  "stored lossy p =
     (case p of (r, g, b, a) \<Rightarrow>
        if a = 255 then p else if a = 0 then (0, 0, 0, 0) else lossy p)"

text \<open>\<open>ctx.putImageData(data, 0, 0)\<close> with canvas-sized data: every pixel is replaced,
  nothing is blended.\<close>

definition putImageData :: "(pixel \<Rightarrow> pixel) \<Rightarrow> byte list \<Rightarrow> canvas \<Rightarrow> canvas" where
  "putImageData lossy d c = c\<lparr>bitmap := map (stored lossy) (pixels_of d)\<rparr>"

text \<open>A byte buffer as a canvas that was given it reads it back.\<close>

definition as_stored :: "(pixel \<Rightarrow> pixel) \<Rightarrow> byte list \<Rightarrow> byte list" where
  "as_stored lossy bs = bytes_of (map (stored lossy) (pixels_of bs))"

text \<open>
  \<open>drawImage\<close> composites with the context's default operation, source-over: a fully
  opaque source pixel replaces the destination pixel, a fully transparent one leaves it
  as it is. How a partially transparent pixel is rounded is the browser's business and is
  the parameter \<open>blend\<close>.
\<close>

definition over :: "(pixel \<Rightarrow> pixel \<Rightarrow> pixel) \<Rightarrow> pixel \<Rightarrow> pixel \<Rightarrow> pixel" where
  "over blend s d =
     (case s of (r, g, b, a) \<Rightarrow> if a = 255 then s else if a = 0 then d else blend s d)"

text \<open>\<open>ctx.drawImage(src, 0, 0)\<close>: the source is laid over the destination from the
  top-left corner and clipped to it; a source canvas with a zero dimension raises.\<close>

definition drawImage :: "(pixel \<Rightarrow> pixel \<Rightarrow> pixel) \<Rightarrow> canvas \<Rightarrow> canvas \<Rightarrow> error + canvas" where
  "drawImage blend src dst =
     (if cv_width src = 0 \<or> cv_height src = 0 then Inl InvalidStateError
      else Inr (dst\<lparr>bitmap :=
         map (\<lambda>i. let x = i mod cv_width dst; y = i div cv_width dst in
                   if x < cv_width src \<and> y < cv_height src
                   then over blend (bitmap src ! (y * cv_width src + x)) (bitmap dst ! i)
                   else bitmap dst ! i)
             [0..<cv_width dst * cv_height dst]\<rparr>))"

section \<open>Surface\<close>

text \<open>
  Surfaces are objects: the engine holds handles to them, a window points at one, and a
  primary surface points at its back buffer. They live in a heap, a list indexed by
  reference; references only ever come from \<open>new_Surface\<close>, so they are in range.
\<close>

type_synonym ref = nat

record surface =
  canvas :: canvas
  back_buf :: "ref option"

type_synonym heap = "surface list"

text \<open>The constructor: a primary surface first constructs its back buffer, a
  non-primary surface of the same size; both are cleared and painted black over
  the fixed rectangle 640 by 480.\<close>

definition new_Surface :: "nat \<Rightarrow> nat \<Rightarrow> bool \<Rightarrow> heap \<Rightarrow> ref \<times> heap" where
  "new_Surface w h primary hp =
     (if primary then
        (let b = length hp;
             hp1 = hp @ [\<lparr>canvas = fillRect_black 640 480 (blank_canvas w h), back_buf = None\<rparr>]
         in (length hp1,
             hp1 @ [\<lparr>canvas = fillRect_black 640 480 (blank_canvas w h), back_buf = Some b\<rparr>]))
      else
        (length hp,
         hp @ [\<lparr>canvas = fillRect_black 640 480 (blank_canvas w h), back_buf = None\<rparr>]))"

definition write_pixels :: "(pixel \<Rightarrow> pixel) \<Rightarrow> ref \<Rightarrow> byte list \<Rightarrow> heap \<Rightarrow> error + heap" where
  "write_pixels lossy r pixels hp =
     (let c = canvas (hp ! r) in
      case ImageData (cv_width c) (cv_height c) of
        Inl e \<Rightarrow> Inl e
      | Inr d \<Rightarrow>
          (case typed_array_set d pixels of
             Inl e \<Rightarrow> Inl e
           | Inr d' \<Rightarrow> Inr (hp[r := (hp ! r)\<lparr>canvas := putImageData lossy d' c\<rparr>])))"

definition get_attached :: "ref \<Rightarrow> heap \<Rightarrow> error + ref" where
  "get_attached r hp =
     (case back_buf (hp ! r) of
        None \<Rightarrow> Inl (Error ''no back for attached'')
      | Some b \<Rightarrow> Inr b)"

definition flip :: "(pixel \<Rightarrow> pixel \<Rightarrow> pixel) \<Rightarrow> ref \<Rightarrow> heap \<Rightarrow> error + heap" where
  "flip blend r hp =
     (case back_buf (hp ! r) of
        None \<Rightarrow> Inl (Error ''no back for flip'')
      | Some b \<Rightarrow>
          (case drawImage blend (canvas (hp ! b)) (canvas (hp ! r)) of
             Inl e \<Rightarrow> Inl e
           | Inr c' \<Rightarrow> Inr (hp[r := (hp ! r)\<lparr>canvas := c'\<rparr>])))"

text \<open>The buffer size the spec calls \<open>width*height*bytesPerPixel\<close>: four bytes a pixel.\<close>

definition byte_size :: "canvas \<Rightarrow> nat" where
  "byte_size c = cv_width c * cv_height c * 4"

text \<open>A pixel buffer is opaque when the alpha byte of every pixel is 255.\<close>

definition opaque :: "byte list \<Rightarrow> bool" where
  "opaque px = list_all (\<lambda>(r, g, b, a). a = 255) (pixels_of px)"

text \<open>\<open>p\<close> is a primary surface of the heap and \<open>b\<close> its back buffer, of the same size
  (what the constructor sets up and no method changes).\<close>

definition primary_of :: "heap \<Rightarrow> ref \<Rightarrow> ref \<Rightarrow> bool" where
  "primary_of hp p b =
     (p < length hp \<and> b < length hp \<and> back_buf (hp ! p) = Some b \<and>
      cv_width (canvas (hp ! b)) = cv_width (canvas (hp ! p)) \<and>
      cv_height (canvas (hp ! b)) = cv_height (canvas (hp ! p)))"

section \<open>JavaScript numbers\<close>

text \<open>
  The rate average is a JavaScript number. Its finite values are taken as reals (rounding
  is left out; every operation below rounds the same way on both sides of the laws proved),
  and the values a division by zero produces are kept: \<open>x / 0\<close> is an infinity or NaN, not
  HOL's \<open>0\<close>. Zero is unsigned: the only divisor is a difference of two clock readings,
  which is never negative zero.
\<close>

datatype jsnum = Fin real | PInf | NInf | NaN

fun js_add :: "jsnum \<Rightarrow> jsnum \<Rightarrow> jsnum" where
  "js_add NaN _ = NaN"
| "js_add _ NaN = NaN"
| "js_add (Fin a) (Fin b) = Fin (a + b)"
| "js_add PInf NInf = NaN"
| "js_add NInf PInf = NaN"
| "js_add PInf _ = PInf"
| "js_add _ PInf = PInf"
| "js_add NInf _ = NInf"
| "js_add _ NInf = NInf"

fun js_sub :: "jsnum \<Rightarrow> jsnum \<Rightarrow> jsnum" where
  "js_sub NaN _ = NaN"
| "js_sub _ NaN = NaN"
| "js_sub (Fin a) (Fin b) = Fin (a - b)"
| "js_sub PInf PInf = NaN"
| "js_sub NInf NInf = NaN"
| "js_sub PInf _ = PInf"
| "js_sub _ PInf = NInf"
| "js_sub NInf _ = NInf"
| "js_sub _ NInf = PInf"

definition js_sign_inf :: "bool \<Rightarrow> jsnum" where
  "js_sign_inf positive = (if positive then PInf else NInf)"

fun js_mul :: "jsnum \<Rightarrow> jsnum \<Rightarrow> jsnum" where
  "js_mul NaN _ = NaN"
| "js_mul _ NaN = NaN"
| "js_mul (Fin a) (Fin b) = Fin (a * b)"
| "js_mul (Fin a) PInf = (if a = 0 then NaN else js_sign_inf (0 < a))"
| "js_mul (Fin a) NInf = (if a = 0 then NaN else js_sign_inf (a < 0))"
| "js_mul PInf (Fin b) = (if b = 0 then NaN else js_sign_inf (0 < b))"
| "js_mul NInf (Fin b) = (if b = 0 then NaN else js_sign_inf (b < 0))"
| "js_mul PInf PInf = PInf"
| "js_mul NInf NInf = PInf"
| "js_mul PInf NInf = NInf"
| "js_mul NInf PInf = NInf"

text \<open>Division of two finite numbers, the only division the driver makes.\<close>

definition js_div :: "real \<Rightarrow> real \<Rightarrow> jsnum" where
  "js_div a b =
     (if b = 0 then (if a = 0 then NaN else js_sign_inf (0 < a))
      else Fin (a / b))"

section \<open>The execution engine, seen from the driver\<close>

type_synonym address = "32 word"

text \<open>
  The engine is WebAssembly behind a narrow interface. The driver reads its program
  counter \<open>eip\<close>; everything else it holds is the opaque \<open>core\<close>.

  Modelled from the spec: the engine's \<open>breakpoint_add\<close> and \<open>breakpoint_clear\<close> are not
  part of the TypeScript sources. The spec says the engine maintains a break set parallel
  to the Breakpoint Table, in which the driver registers and unregisters addresses;
  \<open>breaks\<close> is that set.
\<close>

record 'x emulator =
  eip :: address
  breaks :: "address set"
  core :: 'x

definition breakpoint_add :: "address \<Rightarrow> 'x emulator \<Rightarrow> 'x emulator" where
  "breakpoint_add a e = e\<lparr>breaks := insert a (breaks e)\<rparr>"

definition breakpoint_clear :: "address \<Rightarrow> 'x emulator \<Rightarrow> 'x emulator" where
  "breakpoint_clear a e = e\<lparr>breaks := breaks e - {a}\<rparr>"

section \<open>Breakpoints, windows and the session state\<close>

text \<open>
  Modelled from the spec: the interface \<open>Breakpoint\<close> is imported from a module that is not
  among the sources. The spec's data model gives it an address and the flags
  \<open>disabled\<close>, \<open>temporary\<close> and \<open>oneShot\<close>. The flags are optional in the code and only
  ever tested for truth, so an absent flag is \<open>False\<close>.
\<close>

record breakpoint =
  addr :: address
  disabled :: bool
  oneShot :: bool
  temporary :: bool

record window =
  key :: nat
  title :: string
  width :: nat
  height :: nat
  surface :: "ref option"

text \<open>
  The class \<open>VM\<close> of the current driver. \<open>selectedTab\<close> is the one field of the page's
  state that the driver sets while it checks for a break; \<open>surfaces\<close> is the heap the
  Surface objects live in. The import list and the label map are left out: nothing
  modelled here reads or writes them.
\<close>

record 'x vm =
  emu :: "'x emulator"
  breakpoints :: "address \<rightharpoonup> breakpoint"
  exitCode :: "int option"
  stdout :: string
  selectedTab :: string
  stepSize :: nat
  instrPerMs :: jsnum
  windows :: "window list"
  surfaces :: heap

subsection \<open>The Breakpoint Table\<close>

definition addBreak :: "breakpoint \<Rightarrow> 'x vm \<Rightarrow> 'x vm" where
  "addBreak bp v =
     v\<lparr>breakpoints := (breakpoints v)(addr bp \<mapsto> bp),
       emu := breakpoint_add (addr bp) (emu v)\<rparr>"

definition delBreak :: "address \<Rightarrow> 'x vm \<Rightarrow> 'x vm" where
  "delBreak a v =
     v\<lparr>breakpoints := (breakpoints v)(a := None),
       emu := breakpoint_clear a (emu v)\<rparr>"

text \<open>\<open>toggleBreak\<close> reads \<open>bp.disabled\<close> of what the table returns: on an address that is
  not registered this is a property read on \<open>undefined\<close>, which raises before anything
  is changed.\<close>

definition toggleBreak :: "address \<Rightarrow> 'x vm \<Rightarrow> error + 'x vm" where
  "toggleBreak a v =
     (case breakpoints v a of
        None \<Rightarrow> Inl TypeError
      | Some bp \<Rightarrow>
          (let bp' = bp\<lparr>disabled := \<not> disabled bp\<rparr>;
               v1 = v\<lparr>breakpoints := (breakpoints v)(a \<mapsto> bp')\<rparr>
           in if disabled bp' then Inr (v1\<lparr>emu := breakpoint_clear a (emu v1)\<rparr>)
              else Inr (v1\<lparr>emu := breakpoint_add a (emu v1)\<rparr>)))"

text \<open>The state a new \<open>VM\<close> starts in: the field initialisers, then the constructor's
  one breakpoint. (Loading the executable only fills the import list and the labels.)\<close>

definition new_VM :: "'x emulator \<Rightarrow> 'x vm" where
  "new_VM e =
     addBreak \<lparr>addr = 0x40a3a5, disabled = False, oneShot = False, temporary = False\<rparr>
       \<lparr>emu = e, breakpoints = Map.empty, exitCode = None, stdout = [],
        selectedTab = ''output'', stepSize = 5000, instrPerMs = Fin 0,
        windows = [], surfaces = []\<rparr>"

text \<open>The engine's break set agrees with the table at an address, and everywhere.\<close>

definition sync_at :: "'x vm \<Rightarrow> address \<Rightarrow> bool" where
  "sync_at v a =
     ((a \<in> breaks (emu v)) =
      (case breakpoints v a of None \<Rightarrow> False | Some bp \<Rightarrow> \<not> disabled bp))"


text \<open>Check if the current address is a break or exit point; the result is whether it is.\<close>

definition checkBreak :: "'x vm \<Rightarrow> bool \<times> 'x vm" where
  "checkBreak v =
     (if exitCode v \<noteq> None then (True, v)
      else case breakpoints v (eip (emu v)) of
        None \<Rightarrow> (False, v)
      | Some bp \<Rightarrow>
          if \<not> disabled bp then
            (if oneShot bp then (True, delBreak (addr bp) v)
             else (True, v\<lparr>selectedTab := ''breakpoints''\<rparr>))
          else (False, v))"

subsection \<open>The host interface the engine calls back into\<close>

type_synonym decoder = "byte list \<Rightarrow> string"

definition exit :: "int \<Rightarrow> 'x vm \<Rightarrow> 'x vm" where
  "exit code v = v\<lparr>exitCode := Some code\<rparr>"

text \<open>\<open>write\<close> appends the decoded text to \<open>stdout\<close> and reports the whole buffer as
  consumed; the text decoder is a parameter.\<close>

definition host_write :: "decoder \<Rightarrow> byte list \<Rightarrow> 'x vm \<Rightarrow> nat \<times> 'x vm" where
  "host_write decode buf v = (length buf, v\<lparr>stdout := stdout v @ decode buf\<rparr>)"

text \<open>\<open>time\<close> floors the clock reading it is given.\<close>

definition time :: "real \<Rightarrow> int" where
  "time now = \<lfloor>now\<rfloor>"

text \<open>A window handle is the window's position in \<open>windows\<close>, which only ever grows.\<close>

definition create_window :: "'x vm \<Rightarrow> nat \<times> 'x vm" where
  "create_window v =
     (let id = length (windows v) + 1;
          v1 = v\<lparr>windows := windows v @
                 [\<lparr>key = id, title = [], width = 0, height = 0, surface = None\<rparr>]\<rparr>
      in (id - 1, v1))"

text \<open>\<open>create_surface\<close> attaches a primary surface to the last window of the list. With
  no window, \<open>this.windows[-1]\<close> is \<open>undefined\<close> and the assignment to its \<open>surface\<close>
  raises; the surface just constructed is then unreachable.\<close>

definition create_surface :: "nat \<Rightarrow> nat \<Rightarrow> bool \<Rightarrow> 'x vm \<Rightarrow> error + ref \<times> 'x vm" where
  "create_surface w h primary v =
     (case new_Surface w h primary (surfaces v) of
        (r, hp) \<Rightarrow>
          if primary then
            (case windows v of
               [] \<Rightarrow> Inl TypeError
             | _ # _ \<Rightarrow>
                 Inr (r, v\<lparr>surfaces := hp,
                           windows := (windows v)[length (windows v) - 1 :=
                              (windows v ! (length (windows v) - 1))\<lparr>surface := Some r\<rparr>]\<rparr>))
          else Inr (r, v\<lparr>surfaces := hp\<rparr>))"

text \<open>
  What the engine asks of the host while it executes, in the order it asks: the five
  methods of \<open>JsHost\<close>. The calls the engine makes on the surface and window handles
  it was given (\<open>write_pixels\<close>, \<open>flip\<close>, \<open>bit_blt\<close>, \<open>set_size\<close>, the title) are not
  listed: they change pixels and window sizes only, which no statement about stepping
  reads. \<open>bit_blt\<close> and \<open>set_size\<close> are not modelled.
\<close>

datatype hostcall =
  Exit int
| Write "byte list"
| Time
| Create_window
| Create_surface nat nat bool

definition host_call :: "decoder \<Rightarrow> hostcall \<Rightarrow> 'x vm \<Rightarrow> error + 'x vm" where
  "host_call decode c v =
     (case c of
        Exit code \<Rightarrow> Inr (exit code v)
      | Write buf \<Rightarrow> Inr (snd (host_write decode buf v))
      | Time \<Rightarrow> Inr v
      | Create_window \<Rightarrow> Inr (snd (create_window v))
      | Create_surface w h primary \<Rightarrow>
          (case create_surface w h primary v of
             Inl e \<Rightarrow> Inl e
           | Inr (r, v') \<Rightarrow> Inr v'))"

text \<open>A callback that raises ends the engine call there; what earlier callbacks changed
  stays changed.\<close>

fun run_calls :: "decoder \<Rightarrow> hostcall list \<Rightarrow> 'x vm \<Rightarrow> error option \<times> 'x vm" where
  "run_calls decode [] v = (None, v)"
| "run_calls decode (c # cs) v =
     (case host_call decode c v of
        Inl e \<Rightarrow> (Some e, v)
      | Inr v' \<Rightarrow> run_calls decode cs v')"

subsection \<open>The execution driver\<close>

text \<open>
  The engine's \<open>step\<close> and \<open>step_many\<close> are parameters: from the engine's state they give
  its next state and the host callbacks made on the way, \<open>step_many\<close> also whether the
  whole batch ran. Every statement below holds for all such parameters, so for whatever
  the engine does with the answers the host gives it.
\<close>

type_synonym 'x engine_step = "'x emulator \<Rightarrow> 'x emulator \<times> hostcall list"
type_synonym 'x engine_step_many = "nat \<Rightarrow> 'x emulator \<Rightarrow> 'x emulator \<times> hostcall list \<times> bool"

text \<open>The statement \<open>this.emu.step()\<close>.\<close>

definition emu_step :: "'x engine_step \<Rightarrow> decoder \<Rightarrow> 'x vm \<Rightarrow> error option \<times> 'x vm" where
  "emu_step estep decode v =
     (case estep (emu v) of (e', calls) \<Rightarrow> run_calls decode calls (v\<lparr>emu := e'\<rparr>))"

definition step :: "'x engine_step \<Rightarrow> decoder \<Rightarrow> 'x vm \<Rightarrow> (error + bool) \<times> 'x vm" where
  "step estep decode v =
     (case emu_step estep decode v of
        (Some e, v1) \<Rightarrow> (Inl e, v1)
      | (None, v1) \<Rightarrow> (case checkBreak v1 of (b, v2) \<Rightarrow> (Inr (\<not> b), v2)))"

text \<open>The statement \<open>this.emu.step_many(this.stepSize)\<close> and its result \<open>ranAll\<close>.\<close>

definition emu_step_many ::
  "'x engine_step_many \<Rightarrow> decoder \<Rightarrow> 'x vm \<Rightarrow> error option \<times> bool \<times> 'x vm" where
  "emu_step_many estep_many decode v =
     (case estep_many (stepSize v) (emu v) of
        (e', calls, ranAll) \<Rightarrow>
          (case run_calls decode calls (v\<lparr>emu := e'\<rparr>) of (err, v1) \<Rightarrow> (err, ranAll, v1)))"

text \<open>\<open>stepMany\<close>; \<open>t_start\<close> and \<open>t_end\<close> are the two readings of \<open>performance.now()\<close>,
  finite numbers whose difference \<open>delta\<close> is the measured duration in milliseconds.
  \<open>stepSize\<close> is a JavaScript number that starts at 5000 and is only ever doubled; it is
  a natural number here, with no upper bound.\<close>

definition stepMany ::
  "'x engine_step_many \<Rightarrow> decoder \<Rightarrow> real \<Rightarrow> real \<Rightarrow> 'x vm \<Rightarrow> (error + bool) \<times> 'x vm" where
  "stepMany estep_many decode t_start t_end v =
     (case emu_step_many estep_many decode v of
        (Some e, ranAll, v1) \<Rightarrow> (Inl e, v1)
      | (None, ranAll, v1) \<Rightarrow>
          if \<not> ranAll then (case checkBreak v1 of (b, v2) \<Rightarrow> (Inr (\<not> b), v2))
          else
            (let delta = t_end - t_start;
                 rate = js_div (real (stepSize v1)) delta;
                 alpha = Fin 0.5;
                 v2 = v1\<lparr>instrPerMs :=
                         js_add (js_mul alpha rate)
                                (js_mul (js_sub alpha (Fin 1)) (instrPerMs v1))\<rparr>;
                 v3 = (if delta < 10 then v2\<lparr>stepSize := stepSize v2 * 2\<rparr> else v2)
             in (Inr True, v3)))"

text \<open>\<open>Page.runTo\<close> registers a one-shot breakpoint before it starts running.\<close>

definition runTo :: "address \<Rightarrow> 'x vm \<Rightarrow> 'x vm" where
  "runTo a v = addBreak \<lparr>addr = a, disabled = False, oneShot = True, temporary = False\<rparr> v"

section \<open>The earlier driver\<close>

text \<open>
  The older \<open>VM\<close> class steps a \<open>wasm.X86\<close>, keeps its breakpoints in the table alone and
  offers the engine only \<open>exit\<close> and \<open>write\<close>; its \<open>write\<close> logs and changes nothing.
\<close>

record 'x x86 =
  x86_eip :: address
  x86_core :: 'x

record 'x vm0 =
  x86 :: "'x x86"
  breakpoints0 :: "address \<rightharpoonup> breakpoint"
  exitCode0 :: "int option"

datatype hostcall0 = Exit0 int | Write0 "byte list"

definition host_call0 :: "hostcall0 \<Rightarrow> 'x vm0 \<Rightarrow> 'x vm0" where
  "host_call0 c v = (case c of Exit0 code \<Rightarrow> v\<lparr>exitCode0 := Some code\<rparr> | Write0 buf \<Rightarrow> v)"

definition x86_step :: "('x x86 \<Rightarrow> 'x x86 \<times> hostcall0 list) \<Rightarrow> 'x vm0 \<Rightarrow> 'x vm0" where
  "x86_step xstep v =
     (case xstep (x86 v) of (e', calls) \<Rightarrow> foldl (\<lambda>s c. host_call0 c s) (v\<lparr>x86 := e'\<rparr>) calls)"

definition step0 :: "('x x86 \<Rightarrow> 'x x86 \<times> hostcall0 list) \<Rightarrow> 'x vm0 \<Rightarrow> bool \<times> 'x vm0" where
  "step0 xstep v =
     (let v1 = x86_step xstep v in
      if exitCode0 v1 \<noteq> None then (False, v1)
      else case breakpoints0 v1 (x86_eip (x86 v1)) of
        Some bp \<Rightarrow>
          (False, if temporary bp
                  then v1\<lparr>breakpoints0 := (breakpoints0 v1)(addr bp := None)\<rparr> else v1)
      | None \<Rightarrow> (True, v1))"

text \<open>The older \<open>Page.runTo\<close> writes a temporary breakpoint straight into the table.\<close>

definition runTo0 :: "address \<Rightarrow> 'x vm0 \<Rightarrow> 'x vm0" where
  "runTo0 a v =
     v\<lparr>breakpoints0 := (breakpoints0 v)
          (a \<mapsto> \<lparr>addr = a, disabled = False, oneShot = False, temporary = True\<rparr>)\<rparr>"

text \<open>The state a new \<open>VM\<close> of the earlier driver starts in.\<close>

definition new_VM0 :: "'x x86 \<Rightarrow> 'x vm0" where
  "new_VM0 e = \<lparr>x86 = e, breakpoints0 = Map.empty, exitCode0 = None\<rparr>"

section \<open>What a host callback cannot touch\<close>

text \<open>The engine, the Breakpoint Table, the selected tab, the batch size and the rate
  average are the same in both states.\<close>

definition frame_eq :: "'x vm \<Rightarrow> 'x vm \<Rightarrow> bool" where
  "frame_eq v v' =
     (emu v' = emu v \<and> breakpoints v' = breakpoints v \<and> selectedTab v' = selectedTab v \<and>
      stepSize v' = stepSize v \<and> instrPerMs v' = instrPerMs v)"

section \<open>The sessions the Breakpoint Table operations produce\<close>


section \<open>Sample engines and sessions\<close>

text \<open>
  Small concrete engines, to run the driver on: an engine state at a given address with
  an empty break set, an engine whose step jumps to a given address, one whose step moves
  to the next address, a batch step that runs the whole batch, one that stops after the
  first instruction, and a decoder that yields no text; none of these calls the host.
  The last engine jumps to a given address and calls \<open>exit\<close> on the way.
\<close>

definition emu_at :: "address \<Rightarrow> unit emulator" where
  "emu_at a = \<lparr>eip = a, breaks = {}, core = ()\<rparr>"

definition jump_to :: "address \<Rightarrow> unit engine_step" where
  "jump_to a e = (e\<lparr>eip := a\<rparr>, [])"

definition next_instr :: "unit engine_step" where
  "next_instr e = (e\<lparr>eip := eip e + 1\<rparr>, [])"

definition run_all :: "unit engine_step_many" where
  "run_all n e = (e\<lparr>eip := eip e + of_nat n\<rparr>, [], True)"

definition stop_early :: "unit engine_step_many" where
  "stop_early n e = (e\<lparr>eip := eip e + 1\<rparr>, [], False)"

definition no_text :: decoder where
  "no_text buf = []"

definition exit_at :: "address \<Rightarrow> int \<Rightarrow> unit engine_step" where
  "exit_at a code e = (e\<lparr>eip := a\<rparr>, [Exit code])"

definition x86_jump_to :: "address \<Rightarrow> unit x86 \<Rightarrow> unit x86 \<times> hostcall0 list" where
  "x86_jump_to a e = (e\<lparr>x86_eip := a\<rparr>, [])"

section \<open>Facts about the display layer\<close>

lemma bytes_of_pixels_of:
  "length bs mod 4 = 0 \<Longrightarrow> bytes_of (pixels_of bs) = bs"
proof (induction bs rule: pixels_of.induct)
  case (1 r g b a rest)
  then show ?case by simp
qed simp_all

lemma length_pixels_of: "length (pixels_of bs) = length bs div 4"
  by (induction bs rule: pixels_of.induct) simp_all

lemma over_opaque_nth:
  "list_all (\<lambda>(r, g, b, a). a = 255) ps \<Longrightarrow> i < length ps \<Longrightarrow> over blend (ps ! i) d = ps ! i"
  by (auto simp: list_all_length over_def split: prod.splits)

lemma write_pixels_fits:
  assumes "0 < cv_width (canvas (hp ! r))" "0 < cv_height (canvas (hp ! r))"
    and "length px \<le> byte_size (canvas (hp ! r))"
  shows "write_pixels lossy r px hp =
     Inr (hp[r := (hp ! r)\<lparr>canvas := (canvas (hp ! r))\<lparr>bitmap :=
        map (stored lossy)
          (pixels_of (px @ replicate (byte_size (canvas (hp ! r)) - length px) 0))\<rparr>\<rparr>])"
  using assms
  by (simp add: write_pixels_def ImageData_def typed_array_set_def putImageData_def byte_size_def
      Let_def mult.commute mult.left_commute)

lemma write_pixels_too_long:
  assumes "0 < cv_width (canvas (hp ! r))" "0 < cv_height (canvas (hp ! r))"
    and "byte_size (canvas (hp ! r)) < length px"
  shows "write_pixels lossy r px hp = Inl RangeError"
  using assms
  by (simp add: write_pixels_def ImageData_def typed_array_set_def byte_size_def Let_def
      mult.commute mult.left_commute)

lemma write_pixels_zero_dim:
  assumes "cv_width (canvas (hp ! r)) = 0 \<or> cv_height (canvas (hp ! r)) = 0"
  shows "write_pixels lossy r px hp = Inl IndexSizeError"
  using assms by (auto simp add: write_pixels_def ImageData_def Let_def)

lemma length_bytes_of: "length (bytes_of ps) = 4 * length ps"
  by (induction ps rule: bytes_of.induct) simp_all

lemma length_as_stored: "length (as_stored lossy bs) = 4 * (length bs div 4)"
  by (simp add: as_stored_def length_bytes_of length_pixels_of)

lemma stored_cases:
  "stored lossy (r, g, b, 255) = (r, g, b, 255)"
  "stored lossy (r, g, b, 0) = (0, 0, 0, 0)"
  by (simp_all add: stored_def)

lemma stored_opaque:
  "list_all (\<lambda>(r, g, b, a). a = 255) ps \<Longrightarrow> map (stored lossy) ps = ps"
  by (induction ps) (auto simp add: stored_def)

lemma as_stored_opaque:
  assumes "opaque px" "length px mod 4 = 0"
  shows "as_stored lossy px = px"
  using assms by (simp add: as_stored_def opaque_def stored_opaque bytes_of_pixels_of)

lemma drawImage_same_size_opaque:
  assumes "cv_width src = cv_width dst" "cv_height src = cv_height dst"
    and "0 < cv_width src" "0 < cv_height src"
    and "length (bitmap src) = cv_width src * cv_height src"
    and "list_all (\<lambda>(r, g, b, a). a = 255) (bitmap src)"
  shows "drawImage blend src dst = Inr (dst\<lparr>bitmap := bitmap src\<rparr>)"
proof -
  let ?w = "cv_width dst" and ?h = "cv_height dst"
  have pos: "0 < ?w" using assms by simp
  have "map (\<lambda>i. let x = i mod ?w; y = i div ?w in
                   if x < cv_width src \<and> y < cv_height src
                   then over blend (bitmap src ! (y * cv_width src + x)) (bitmap dst ! i)
                   else bitmap dst ! i) [0..<?w * ?h]
        = map (\<lambda>i. bitmap src ! i) [0..<?w * ?h]"
  proof (rule map_cong[OF refl])
    fix i assume "i \<in> set [0..<?w * ?h]"
    then have i: "i < ?w * ?h" by simp
    have x: "i mod ?w < ?w" using pos by simp
    have y: "i div ?w < ?h" using i pos by (simp add: less_mult_imp_div_less mult.commute)
    have idx: "i div ?w * ?w + i mod ?w = i" by simp
    have "over blend (bitmap src ! i) (bitmap dst ! i) = bitmap src ! i"
      using assms i by (intro over_opaque_nth) simp_all
    with x y idx show "(let x = i mod ?w; y = i div ?w in
                   if x < cv_width src \<and> y < cv_height src
                   then over blend (bitmap src ! (y * cv_width src + x)) (bitmap dst ! i)
                   else bitmap dst ! i) = bitmap src ! i"
      using assms by (simp add: Let_def)
  qed
  also have "\<dots> = bitmap src"
    using assms map_nth[of "bitmap src"] by simp
  finally show ?thesis using assms by (simp add: drawImage_def)
qed

lemma new_Surface_plain:
  "new_Surface w h False hp =
     (length hp, hp @ [\<lparr>canvas = fillRect_black 640 480 (blank_canvas w h), back_buf = None\<rparr>])"
  by (simp add: new_Surface_def)

lemma new_Surface_primary:
  "new_Surface w h True hp =
     (Suc (length hp),
      hp @ [\<lparr>canvas = fillRect_black 640 480 (blank_canvas w h), back_buf = None\<rparr>,
            \<lparr>canvas = fillRect_black 640 480 (blank_canvas w h), back_buf = Some (length hp)\<rparr>])"
  by (simp add: new_Surface_def Let_def)

lemma blank_dims:
  "cv_width (fillRect_black rw rh (blank_canvas w h)) = w"
  "cv_height (fillRect_black rw rh (blank_canvas w h)) = h"
  by (simp_all add: fillRect_black_def blank_canvas_def)

lemma primary_of_new_Surface:
  "new_Surface w h True hp = (p, hp') \<Longrightarrow> primary_of hp' p (length hp)"
  by (auto simp: new_Surface_primary primary_of_def nth_append blank_dims)

text \<open>
  C6 (amended). On a surface of non-zero width and height, \<open>write_pixels\<close> with a buffer of
  exactly \<open>width*height*4\<close> bytes replaces the full pixel contents with the buffer as
  the canvas stores it (opaque pixels byte for byte, fully transparent pixels as four
  zero bytes, partially transparent ones as the browser rounds them), so that an opaque
  buffer reads back unchanged; a longer buffer fails (the typed array's RangeError) and,
  being a failure, changes nothing. A shorter buffer does not fail: the surface then holds
  the buffer followed by zero bytes, again as the canvas stores it. On a surface with a
  zero dimension every call fails.
\<close>

theorem write_pixels_by_length:
  assumes "r < length hp"
  shows "(0 < cv_width (canvas (hp ! r)) \<and> 0 < cv_height (canvas (hp ! r)) \<and>
          length px = byte_size (canvas (hp ! r)) \<longrightarrow>
            (case write_pixels lossy r px hp of
               Inl e \<Rightarrow> False
             | Inr hp' \<Rightarrow> contents (canvas (hp' ! r)) = as_stored lossy px \<and>
                 length (contents (canvas (hp' ! r))) = length px \<and>
                 (opaque px \<longrightarrow> contents (canvas (hp' ! r)) = px) \<and>
                 length hp' = length hp \<and>
                 byte_size (canvas (hp' ! r)) = byte_size (canvas (hp ! r)) \<and>
                 back_buf (hp' ! r) = back_buf (hp ! r) \<and>
                 (\<forall>q. q \<noteq> r \<longrightarrow> hp' ! q = hp ! q))) \<and>
         (0 < cv_width (canvas (hp ! r)) \<and> 0 < cv_height (canvas (hp ! r)) \<and>
          byte_size (canvas (hp ! r)) < length px \<longrightarrow>
            write_pixels lossy r px hp = Inl RangeError) \<and>
         (0 < cv_width (canvas (hp ! r)) \<and> 0 < cv_height (canvas (hp ! r)) \<and>
          length px < byte_size (canvas (hp ! r)) \<longrightarrow>
            (case write_pixels lossy r px hp of
               Inl e \<Rightarrow> False
             | Inr hp' \<Rightarrow> contents (canvas (hp' ! r)) =
                 as_stored lossy (px @ replicate (byte_size (canvas (hp ! r)) - length px) 0))) \<and>
         (cv_width (canvas (hp ! r)) = 0 \<or> cv_height (canvas (hp ! r)) = 0 \<longrightarrow>
            write_pixels lossy r px hp = Inl IndexSizeError)"
proof (intro conjI impI)
  assume h: "0 < cv_width (canvas (hp ! r)) \<and> 0 < cv_height (canvas (hp ! r)) \<and>
          length px = byte_size (canvas (hp ! r))"
  have m4: "length px mod 4 = 0" using h by (simp add: byte_size_def)
  have len: "length (as_stored lossy px) = length px"
    using m4 by (simp add: length_as_stored) presburger
  have opq: "opaque px \<longrightarrow> as_stored lossy px = px"
    using m4 by (simp add: as_stored_opaque)
  have wp: "write_pixels lossy r px hp =
     Inr (hp[r := (hp ! r)\<lparr>canvas := (canvas (hp ! r))\<lparr>bitmap :=
        map (stored lossy) (pixels_of px)\<rparr>\<rparr>])"
    using write_pixels_fits[of hp r px lossy] h by simp
  show "case write_pixels lossy r px hp of
               Inl e \<Rightarrow> False
             | Inr hp' \<Rightarrow> contents (canvas (hp' ! r)) = as_stored lossy px \<and>
                 length (contents (canvas (hp' ! r))) = length px \<and>
                 (opaque px \<longrightarrow> contents (canvas (hp' ! r)) = px) \<and>
                 length hp' = length hp \<and>
                 byte_size (canvas (hp' ! r)) = byte_size (canvas (hp ! r)) \<and>
                 back_buf (hp' ! r) = back_buf (hp ! r) \<and>
                 (\<forall>q. q \<noteq> r \<longrightarrow> hp' ! q = hp ! q)"
    using assms len opq
    by (simp add: wp contents_def as_stored_def[symmetric] byte_size_def)
next
  assume "0 < cv_width (canvas (hp ! r)) \<and> 0 < cv_height (canvas (hp ! r)) \<and>
          byte_size (canvas (hp ! r)) < length px"
  then show "write_pixels lossy r px hp = Inl RangeError" by (simp add: write_pixels_too_long)
next
  assume h: "0 < cv_width (canvas (hp ! r)) \<and> 0 < cv_height (canvas (hp ! r)) \<and>
          length px < byte_size (canvas (hp ! r))"
  show "case write_pixels lossy r px hp of
               Inl e \<Rightarrow> False
             | Inr hp' \<Rightarrow> contents (canvas (hp' ! r)) =
                 as_stored lossy (px @ replicate (byte_size (canvas (hp ! r)) - length px) 0)"
    using h assms by (simp add: write_pixels_fits contents_def as_stored_def)
next
  assume "cv_width (canvas (hp ! r)) = 0 \<or> cv_height (canvas (hp ! r)) = 0"
  then show "write_pixels lossy r px hp = Inl IndexSizeError" by (rule write_pixels_zero_dim)
qed

theorem write_pixels_by_length_witness:
  "contents (canvas (projr (write_pixels (\<lambda>p. p) 0 [1, 2, 3, 255]
       (snd (new_Surface 1 1 False []))) ! 0)) = [1, 2, 3, 255] \<and>
   contents (canvas (projr (write_pixels (\<lambda>p. p) 0 [10, 20, 30, 0]
       (snd (new_Surface 1 1 False []))) ! 0)) = [0, 0, 0, 0] \<and>
   write_pixels (\<lambda>p. p) 0 [1, 2, 3, 255, 9] (snd (new_Surface 1 1 False [])) = Inl RangeError \<and>
   contents (canvas (projr (write_pixels (\<lambda>p. p) 0 [7]
       (snd (new_Surface 1 1 False []))) ! 0)) = [0, 0, 0, 0] \<and>
   write_pixels (\<lambda>p. p) 0 [] (snd (new_Surface 0 3 False [])) = Inl IndexSizeError"
proof -
  let ?hp = "snd (new_Surface 1 1 False [])"
  let ?hz = "snd (new_Surface 0 3 False [])"
  let ?id = "\<lambda>p :: pixel. p"
  have r: "(0::nat) < length ?hp" "(0::nat) < length ?hz" by (simp_all add: new_Surface_plain)
  have d: "cv_width (canvas (?hp ! 0)) = 1" "cv_height (canvas (?hp ! 0)) = 1"
    "byte_size (canvas (?hp ! 0)) = 4" "cv_width (canvas (?hz ! 0)) = 0"
    by (simp_all add: new_Surface_plain blank_dims byte_size_def)
  have o: "opaque [1, 2, 3, 255]" by (simp add: opaque_def)
  have s1: "as_stored ?id [10, 20, 30, 0] = [0, 0, 0, 0]"
    by (simp add: as_stored_def stored_def)
  have s2: "as_stored ?id ([7] @ replicate (4 - length [7 :: byte]) 0) = [0, 0, 0, 0]"
    by code_simp
  have a: "contents (canvas (projr (write_pixels ?id 0 [1, 2, 3, 255] ?hp) ! 0)) = [1, 2, 3, 255]"
    using write_pixels_by_length[OF r(1), where px = "[1, 2, 3, 255]" and lossy = ?id] d o
    by (cases "write_pixels ?id 0 [1, 2, 3, 255] ?hp") auto
  have t: "contents (canvas (projr (write_pixels ?id 0 [10, 20, 30, 0] ?hp) ! 0)) = [0, 0, 0, 0]"
    using write_pixels_by_length[OF r(1), where px = "[10, 20, 30, 0]" and lossy = ?id] d s1
    by (cases "write_pixels ?id 0 [10, 20, 30, 0] ?hp") simp_all
  have b: "write_pixels ?id 0 [1, 2, 3, 255, 9] ?hp = Inl RangeError"
    using write_pixels_by_length[OF r(1), where px = "[1, 2, 3, 255, 9]" and lossy = ?id] d
    by simp
  have c: "contents (canvas (projr (write_pixels ?id 0 [7] ?hp) ! 0)) = [0, 0, 0, 0]"
    using write_pixels_by_length[OF r(1), where px = "[7]" and lossy = ?id] d s2
    by (cases "write_pixels ?id 0 [7] ?hp") simp_all
  have e: "write_pixels ?id 0 [] ?hz = Inl IndexSizeError"
    using write_pixels_by_length[OF r(2), where px = "[]" and lossy = ?id] d by simp
  from a t b c e show ?thesis by simp
qed

theorem write_pixels_short_buffer_counterexample:
  "length ([] :: byte list) \<noteq> byte_size (canvas (snd (new_Surface 1 1 False []) ! 0)) \<and>
   write_pixels (\<lambda>p. p) 0 [] (snd (new_Surface 1 1 False [])) =
     Inr [\<lparr>canvas = \<lparr>cv_width = 1, cv_height = 1, bitmap = [(0, 0, 0, 0)]\<rparr>, back_buf = None\<rparr>]"
  by code_simp

text \<open>
  C8 (amended). For every primary surface of non-zero width and height, writing an opaque
  pixel buffer (every alpha byte 255) of exactly \<open>width*height*4\<close> bytes to its back
  buffer, the surface \<open>get_attached\<close> returns, and then flipping the primary makes the
  primary's contents read back as that buffer, byte for byte.
\<close>

theorem flip_shows_opaque_back_buffer:
  assumes "primary_of hp p b"
    and "0 < cv_width (canvas (hp ! p))" and "0 < cv_height (canvas (hp ! p))"
    and "length px = byte_size (canvas (hp ! p))"
    and "opaque px"
  shows "get_attached p hp = Inr b \<and>
         (case write_pixels lossy b px hp of
            Inl e \<Rightarrow> False
          | Inr hp1 \<Rightarrow>
              (case flip blend p hp1 of
                 Inl e \<Rightarrow> False
               | Inr hp2 \<Rightarrow> contents (canvas (hp2 ! p)) = px))"
proof -
  let ?w = "cv_width (canvas (hp ! p))" and ?h = "cv_height (canvas (hp ! p))"
  from assms(1) have p: "p < length hp" and b: "b < length hp"
    and bk: "back_buf (hp ! p) = Some b"
    and bw: "cv_width (canvas (hp ! b)) = ?w" and bh: "cv_height (canvas (hp ! b)) = ?h"
    by (simp_all add: primary_of_def)
  have size: "length px = byte_size (canvas (hp ! b))"
    using assms(4) bw bh by (simp add: byte_size_def)
  have keep: "map (stored lossy) (pixels_of px) = pixels_of px"
    using assms(5) by (simp add: opaque_def stored_opaque)
  define back' where "back' = (canvas (hp ! b))\<lparr>bitmap := pixels_of px\<rparr>"
  define hp1 where "hp1 = hp[b := (hp ! b)\<lparr>canvas := back'\<rparr>]"
  have bpos: "0 < cv_width (canvas (hp ! b))" "0 < cv_height (canvas (hp ! b))"
    using assms(2,3) bw bh by simp_all
  have "write_pixels lossy b px hp = Inr (hp[b := (hp ! b)\<lparr>canvas := (canvas (hp ! b))\<lparr>bitmap :=
        map (stored lossy)
          (pixels_of (px @ replicate (byte_size (canvas (hp ! b)) - length px) 0))\<rparr>\<rparr>])"
    by (rule write_pixels_fits[OF bpos]) (simp add: size)
  then have w1: "write_pixels lossy b px hp = Inr hp1"
    by (simp add: hp1_def back'_def size[symmetric] keep)
  have back1: "back_buf (hp1 ! p) = Some b"
  proof (cases "p = b")
    case True then show ?thesis using b bk by (simp add: hp1_def)
  next
    case False then show ?thesis using bk by (simp add: hp1_def)
  qed
  have src: "canvas (hp1 ! b) = back'" using b by (simp add: hp1_def)
  have bdim: "cv_width back' = ?w" "cv_height back' = ?h"
    using bw bh by (simp_all add: back'_def)
  have ddim: "cv_width (canvas (hp1 ! p)) = ?w" "cv_height (canvas (hp1 ! p)) = ?h"
  proof -
    show "cv_width (canvas (hp1 ! p)) = ?w"
      using b bdim by (cases "p = b") (simp_all add: hp1_def)
    show "cv_height (canvas (hp1 ! p)) = ?h"
      using b bdim by (cases "p = b") (simp_all add: hp1_def)
  qed
  have len: "length (bitmap back') = cv_width back' * cv_height back'"
    unfolding bdim using assms(4) by (simp add: back'_def length_pixels_of byte_size_def)
  have opq: "list_all (\<lambda>(r, g, b, a). a = 255) (bitmap back')"
    using assms(5) by (simp add: back'_def opaque_def)
  have "drawImage blend back' (canvas (hp1 ! p)) = Inr ((canvas (hp1 ! p))\<lparr>bitmap := bitmap back'\<rparr>)"
    by (rule drawImage_same_size_opaque) (simp_all add: bdim ddim assms(2,3) len[unfolded bdim] opq)
  then have draw: "drawImage blend back' (canvas (hp1 ! p)) = Inr ((canvas (hp1 ! p))\<lparr>bitmap := pixels_of px\<rparr>)"
    by (simp add: back'_def)
  have f: "flip blend p hp1 =
      Inr (hp1[p := (hp1 ! p)\<lparr>canvas := (canvas (hp1 ! p))\<lparr>bitmap := pixels_of px\<rparr>\<rparr>])"
    by (simp add: flip_def back1 src draw)
  have "length px mod 4 = 0" using assms(4) by (simp add: byte_size_def)
  then have rt: "bytes_of (pixels_of px) = px" by (rule bytes_of_pixels_of)
  have "p < length hp1" using p by (simp add: hp1_def)
  then show ?thesis by (simp add: w1 f contents_def rt get_attached_def bk)
qed

theorem flip_shows_opaque_back_buffer_witness:
  "contents (canvas (projr (flip (\<lambda>s d. d) 1
       (projr (write_pixels (\<lambda>p. p) 0 [10, 20, 30, 255] (snd (new_Surface 1 1 True []))))) ! 1))
     = [10, 20, 30, 255]"
proof -
  let ?hp = "snd (new_Surface 1 1 True [])"
  have ns: "new_Surface 1 1 True [] = (1, ?hp)" by (simp add: new_Surface_primary)
  have pr: "primary_of ?hp 1 0" using primary_of_new_Surface[OF ns] by simp
  have d: "0 < cv_width (canvas (?hp ! 1))" "0 < cv_height (canvas (?hp ! 1))"
    "length [10, 20, 30, 255 :: byte] = byte_size (canvas (?hp ! 1))"
    by (simp_all add: new_Surface_primary blank_dims byte_size_def)
  have o: "opaque [10, 20, 30, 255]" by (simp add: opaque_def)
  from flip_shows_opaque_back_buffer[OF pr d o, where blend = "\<lambda>s d. d" and lossy = "\<lambda>p. p"]
  show ?thesis by (auto split: sum.splits)
qed

theorem flip_transparent_counterexample:
  "primary_of (snd (new_Surface 1 1 True [])) 1 0 \<and>
   length [10, 20, 30, 0 :: byte] = byte_size (canvas (snd (new_Surface 1 1 True []) ! 1)) \<and>
   contents (canvas (projr (flip (\<lambda>s d. d) 1
       (projr (write_pixels (\<lambda>p. p) 0 [10, 20, 30, 0] (snd (new_Surface 1 1 True []))))) ! 1))
     = [0, 0, 0, 255]"
  by code_simp

text \<open>
  C9 (amended). On a surface constructed with \<open>primary=false\<close> both \<open>get_attached\<close> and
  \<open>flip\<close> fail, with the errors "no back for attached" and "no back for flip". On a surface
  constructed with \<open>primary=true\<close>, \<open>get_attached\<close> returns the back buffer the constructor
  made, a non-primary surface of the same size; \<open>flip\<close> succeeds when width and height
  are non-zero, and fails in \<open>drawImage\<close> when one of them is zero.
\<close>

theorem back_buffer_by_construction:
  "(case new_Surface w h False hp of
      (r, hp') \<Rightarrow> get_attached r hp' = Inl (Error ''no back for attached'') \<and>
                  flip blend r hp' = Inl (Error ''no back for flip'')) \<and>
   (case new_Surface w h True hp of
      (p, hp') \<Rightarrow> get_attached p hp' = Inr (length hp) \<and>
                  primary_of hp' p (length hp) \<and>
                  back_buf (hp' ! length hp) = None \<and>
                  (0 < w \<and> 0 < h \<longrightarrow> (case flip blend p hp' of Inl e \<Rightarrow> False | Inr hp'' \<Rightarrow> True)) \<and>
                  (w = 0 \<or> h = 0 \<longrightarrow> flip blend p hp' = Inl InvalidStateError))"
proof -
  let ?c = "fillRect_black 640 480 (blank_canvas w h)"
  let ?hp' = "snd (new_Surface w h True hp)"
  have a: "get_attached (length hp) (snd (new_Surface w h False hp)) = Inl (Error ''no back for attached'')"
    by (simp add: get_attached_def new_Surface_plain)
  have b: "flip blend (length hp) (snd (new_Surface w h False hp)) = Inl (Error ''no back for flip'')"
    by (simp add: flip_def new_Surface_plain)
  have ns: "new_Surface w h True hp = (Suc (length hp), ?hp')" by (simp add: new_Surface_primary)
  have c: "get_attached (Suc (length hp)) ?hp' = Inr (length hp)"
    by (simp add: get_attached_def new_Surface_primary nth_append)
  have d: "primary_of ?hp' (Suc (length hp)) (length hp)" by (rule primary_of_new_Surface[OF ns])
  have e: "back_buf (?hp' ! length hp) = None" by (simp add: new_Surface_primary nth_append)
  have bb: "back_buf (?hp' ! Suc (length hp)) = Some (length hp)"
    "canvas (?hp' ! Suc (length hp)) = ?c" "canvas (?hp' ! length hp) = ?c"
    by (simp_all add: new_Surface_primary nth_append)
  have g: "0 < w \<and> 0 < h \<longrightarrow> (case flip blend (Suc (length hp)) ?hp' of Inl e \<Rightarrow> False | Inr hp'' \<Rightarrow> True)"
  proof
    assume "0 < w \<and> 0 < h"
    then obtain c' where "drawImage blend ?c ?c = Inr c'"
      by (simp add: drawImage_def blank_dims)
    then show "case flip blend (Suc (length hp)) ?hp' of Inl e \<Rightarrow> False | Inr hp'' \<Rightarrow> True"
      by (simp add: flip_def bb)
  qed
  have i: "w = 0 \<or> h = 0 \<longrightarrow> flip blend (Suc (length hp)) ?hp' = Inl InvalidStateError"
  proof
    assume "w = 0 \<or> h = 0"
    then have "drawImage blend ?c ?c = Inl InvalidStateError"
      by (auto simp add: drawImage_def blank_dims)
    then show "flip blend (Suc (length hp)) ?hp' = Inl InvalidStateError"
      by (simp add: flip_def bb)
  qed
  have first: "case new_Surface w h False hp of
      (r, hp') \<Rightarrow> get_attached r hp' = Inl (Error ''no back for attached'') \<and>
                  flip blend r hp' = Inl (Error ''no back for flip'')"
    using a b by (simp add: new_Surface_plain)
  have second: "case (Suc (length hp), ?hp') of
      (p, hp') \<Rightarrow> get_attached p hp' = Inr (length hp) \<and>
                  primary_of hp' p (length hp) \<and>
                  back_buf (hp' ! length hp) = None \<and>
                  (0 < w \<and> 0 < h \<longrightarrow> (case flip blend p hp' of Inl e \<Rightarrow> False | Inr hp'' \<Rightarrow> True)) \<and>
                  (w = 0 \<or> h = 0 \<longrightarrow> flip blend p hp' = Inl InvalidStateError)"
    using c d e g i by simp
  show ?thesis using first second[folded ns] by (rule conjI)
qed

theorem back_buffer_by_construction_witness:
  "(case flip (\<lambda>s d. s) 1 (snd (new_Surface 2 1 True [])) of Inl e \<Rightarrow> False | Inr hp'' \<Rightarrow> True) \<and>
   get_attached 1 (snd (new_Surface 2 1 True [])) = Inr 0 \<and>
   flip (\<lambda>s d. s) 1 (snd (new_Surface 0 1 True [])) = Inl InvalidStateError \<and>
   get_attached 0 (snd (new_Surface 2 1 False [])) = Inl (Error ''no back for attached'')"
  using back_buffer_by_construction[where w = 2 and h = 1 and hp = "[]" and blend = "\<lambda>s d. s"]
    back_buffer_by_construction[where w = 0 and h = 1 and hp = "[]" and blend = "\<lambda>s d. s"]
  by (simp add: new_Surface_primary new_Surface_plain)

theorem flip_zero_size_counterexample:
  "new_Surface 0 0 True [] =
     (1, [\<lparr>canvas = \<lparr>cv_width = 0, cv_height = 0, bitmap = []\<rparr>, back_buf = None\<rparr>,
          \<lparr>canvas = \<lparr>cv_width = 0, cv_height = 0, bitmap = []\<rparr>, back_buf = Some 0\<rparr>]) \<and>
   flip (\<lambda>s d. s) 1 (snd (new_Surface 0 0 True [])) = Inl InvalidStateError"
  by code_simp

section \<open>Facts about the host callbacks\<close>

lemma host_call_frame:
  assumes "host_call decode c v = Inr v'"
  shows "frame_eq v v'" and "exitCode v \<noteq> None \<Longrightarrow> exitCode v' \<noteq> None"
  using assms
  by (cases c; auto simp: frame_eq_def host_call_def exit_def host_write_def create_window_def
      create_surface_def Let_def split: sum.splits prod.splits if_splits list.splits)+

lemma run_calls_frame:
  "run_calls decode cs v = (err, v') \<Longrightarrow> frame_eq v v'"
proof (induction cs arbitrary: v)
  case Nil
  then show ?case by (simp add: frame_eq_def)
next
  case (Cons c cs)
  show ?case
  proof (cases "host_call decode c v")
    case (Inl e)
    with Cons.prems show ?thesis by (simp add: frame_eq_def)
  next
    case (Inr v1)
    with Cons.prems have "run_calls decode cs v1 = (err, v')" by simp
    then have "frame_eq v1 v'" by (rule Cons.IH)
    moreover have "frame_eq v v1" using Inr by (rule host_call_frame)
    ultimately show ?thesis by (simp add: frame_eq_def)
  qed
qed

lemma run_calls_exited:
  "run_calls decode cs v = (err, v') \<Longrightarrow> exitCode v \<noteq> None \<Longrightarrow> exitCode v' \<noteq> None"
proof (induction cs arbitrary: v)
  case Nil
  then show ?case by simp
next
  case (Cons c cs)
  show ?case
  proof (cases "host_call decode c v")
    case (Inl e)
    with Cons.prems show ?thesis by simp
  next
    case (Inr v1)
    with Cons.prems have "run_calls decode cs v1 = (err, v')" by simp
    moreover have "exitCode v1 \<noteq> None" using Inr Cons.prems(2) by (rule host_call_frame)
    ultimately show ?thesis by (rule Cons.IH)
  qed
qed

lemma emu_step_frame:
  assumes "emu_step estep decode v = (err, v1)"
  shows "emu v1 = fst (estep (emu v))" "breakpoints v1 = breakpoints v"
    "selectedTab v1 = selectedTab v" "stepSize v1 = stepSize v" "instrPerMs v1 = instrPerMs v"
    "exitCode v \<noteq> None \<Longrightarrow> exitCode v1 \<noteq> None"
proof -
  obtain e' calls where es: "estep (emu v) = (e', calls)" by (cases "estep (emu v)")
  with assms have rc: "run_calls decode calls (v\<lparr>emu := e'\<rparr>) = (err, v1)"
    by (simp add: emu_step_def)
  from run_calls_frame[OF rc] es
  show "emu v1 = fst (estep (emu v))" "breakpoints v1 = breakpoints v"
    "selectedTab v1 = selectedTab v" "stepSize v1 = stepSize v" "instrPerMs v1 = instrPerMs v"
    by (simp_all add: frame_eq_def)
  show "exitCode v \<noteq> None \<Longrightarrow> exitCode v1 \<noteq> None"
    using run_calls_exited[OF rc] by simp
qed

lemma emu_step_many_frame:
  assumes "emu_step_many estep_many decode v = (err, ranAll, v1)"
  shows "emu v1 = fst (estep_many (stepSize v) (emu v))" "breakpoints v1 = breakpoints v"
    "selectedTab v1 = selectedTab v" "stepSize v1 = stepSize v" "instrPerMs v1 = instrPerMs v"
    "ranAll = snd (snd (estep_many (stepSize v) (emu v)))"
proof -
  obtain e' calls ra where es: "estep_many (stepSize v) (emu v) = (e', calls, ra)"
    by (cases "estep_many (stepSize v) (emu v)") auto
  with assms have rc: "run_calls decode calls (v\<lparr>emu := e'\<rparr>) = (err, v1)" and ra: "ranAll = ra"
    by (auto simp add: emu_step_many_def split: prod.splits)
  from run_calls_frame[OF rc] es ra
  show "emu v1 = fst (estep_many (stepSize v) (emu v))" "breakpoints v1 = breakpoints v"
    "selectedTab v1 = selectedTab v" "stepSize v1 = stepSize v" "instrPerMs v1 = instrPerMs v"
    "ranAll = snd (snd (estep_many (stepSize v) (emu v)))"
    by (simp_all add: frame_eq_def)
qed

lemma checkBreak_stepSize: "stepSize (snd (checkBreak v)) = stepSize v"
  by (simp add: checkBreak_def delBreak_def split: option.splits)

lemma js_average_law:
  "js_add (js_mul (Fin 0.5) r) (js_mul (js_sub (Fin 0.5) (Fin 1)) x) =
   js_sub (js_mul (Fin 0.5) r) (js_mul (Fin 0.5) x)"
  by (cases r; cases x) (simp_all add: js_sign_inf_def)

section \<open>Facts about the execution driver\<close>

text \<open>
  C1. When the batch of a \<open>stepMany\<close> call runs uninterrupted (the engine reports that it
  ran all of it, and no host callback raised), the call returns \<open>true\<close> and the moving
  average becomes \<open>0.5 * currentRate - 0.5 * oldAvg\<close>, where \<open>currentRate\<close> is the batch
  size divided by the measured milliseconds and \<open>oldAvg\<close> the average before the call.
\<close>

theorem stepMany_rate_average:
  assumes "emu_step_many estep_many decode v = (None, True, v1)"
  shows "fst (stepMany estep_many decode t_start t_end v) = Inr True \<and>
         instrPerMs (snd (stepMany estep_many decode t_start t_end v)) =
           js_sub (js_mul (Fin 0.5) (js_div (real (stepSize v)) (t_end - t_start)))
                  (js_mul (Fin 0.5) (instrPerMs v))"
proof -
  have ss: "stepSize v1 = stepSize v" and avg: "instrPerMs v1 = instrPerMs v"
    using emu_step_many_frame[OF assms] by simp_all
  have r: "stepMany estep_many decode t_start t_end v =
      (Inr True,
       (if t_end - t_start < 10
        then v1\<lparr>instrPerMs :=
                 js_add (js_mul (Fin 0.5) (js_div (real (stepSize v)) (t_end - t_start)))
                        (js_mul (js_sub (Fin 0.5) (Fin 1)) (instrPerMs v)),
               stepSize := stepSize v * 2\<rparr>
        else v1\<lparr>instrPerMs :=
                 js_add (js_mul (Fin 0.5) (js_div (real (stepSize v)) (t_end - t_start)))
                        (js_mul (js_sub (Fin 0.5) (Fin 1)) (instrPerMs v))\<rparr>))"
    using assms by (simp add: stepMany_def Let_def ss avg)
  have "instrPerMs (snd (stepMany estep_many decode t_start t_end v)) =
      js_add (js_mul (Fin 0.5) (js_div (real (stepSize v)) (t_end - t_start)))
             (js_mul (js_sub (Fin 0.5) (Fin 1)) (instrPerMs v))"
    unfolding r by simp
  also have "\<dots> = js_sub (js_mul (Fin 0.5) (js_div (real (stepSize v)) (t_end - t_start)))
                  (js_mul (Fin 0.5) (instrPerMs v))"
    by (rule js_average_law)
  finally show ?thesis by (simp add: r)
qed

theorem stepMany_rate_average_witness:
  "instrPerMs (snd (stepMany run_all no_text 100 104 (new_VM (emu_at 0x401000)))) = Fin 625 \<and>
   instrPerMs (snd (stepMany run_all no_text 100 100 (new_VM (emu_at 0x401000)))) = PInf"
proof -
  let ?v = "new_VM (emu_at 0x401000)"
  have h: "emu_step_many run_all no_text ?v =
      (None, True, ?v\<lparr>emu := fst (run_all (stepSize ?v) (emu ?v))\<rparr>)"
    by (simp add: emu_step_many_def run_all_def)
  have s: "stepSize ?v = 5000" "instrPerMs ?v = Fin 0"
    by (simp_all add: new_VM_def addBreak_def)
  from stepMany_rate_average[OF h, where t_start = 100 and t_end = 104]
    stepMany_rate_average[OF h, where t_start = 100 and t_end = 100]
  show ?thesis by (simp add: s js_div_def js_sign_inf_def)
qed

text \<open>
  C4 (amended). When the batch of a \<open>stepMany\<close> call runs uninterrupted, \<open>stepSize\<close> after
  the call is exactly double its value before the call if the measured duration is under
  10 ms, and unchanged if it is 10 ms or more. When the engine stops the batch early, or
  a host callback raises, \<open>stepSize\<close> is unchanged whatever the duration. It never shrinks.
\<close>

theorem stepMany_batch_size:
  "(emu_step_many estep_many decode v = (None, True, v1) \<longrightarrow>
      (t_end - t_start < 10 \<longrightarrow>
         stepSize (snd (stepMany estep_many decode t_start t_end v)) = 2 * stepSize v) \<and>
      (10 \<le> t_end - t_start \<longrightarrow>
         stepSize (snd (stepMany estep_many decode t_start t_end v)) = stepSize v)) \<and>
   (fst (emu_step_many estep_many decode v) \<noteq> None \<or>
    \<not> fst (snd (emu_step_many estep_many decode v)) \<longrightarrow>
      stepSize (snd (stepMany estep_many decode t_start t_end v)) = stepSize v) \<and>
   stepSize v \<le> stepSize (snd (stepMany estep_many decode t_start t_end v))"
proof -
  obtain err ranAll v' where r: "emu_step_many estep_many decode v = (err, ranAll, v')"
    by (cases "emu_step_many estep_many decode v") auto
  have ss: "stepSize v' = stepSize v" using emu_step_many_frame[OF r] by simp
  have cb: "stepSize (snd (checkBreak v')) = stepSize v" by (simp add: checkBreak_stepSize ss)
  have a: "err = None \<and> ranAll \<longrightarrow>
      (t_end - t_start < 10 \<longrightarrow>
         stepSize (snd (stepMany estep_many decode t_start t_end v)) = 2 * stepSize v) \<and>
      (10 \<le> t_end - t_start \<longrightarrow>
         stepSize (snd (stepMany estep_many decode t_start t_end v)) = stepSize v)"
    by (simp add: stepMany_def r Let_def ss)
  have b: "err \<noteq> None \<or> \<not> ranAll \<longrightarrow>
      stepSize (snd (stepMany estep_many decode t_start t_end v)) = stepSize v"
    using cb by (cases err) (auto simp add: stepMany_def r ss split: prod.splits)
  have c: "stepSize v \<le> stepSize (snd (stepMany estep_many decode t_start t_end v))"
  proof (cases "err = None \<and> ranAll")
    case True
    with a show ?thesis by (cases "t_end - t_start < 10") simp_all
  next
    case False
    with b show ?thesis by auto
  qed
  show ?thesis using a b c by (simp add: r)
qed

theorem stepMany_batch_size_witness:
  "stepSize (snd (stepMany run_all no_text 100 104 (new_VM (emu_at 0x401000)))) = 10000 \<and>
   stepSize (snd (stepMany run_all no_text 100 110 (new_VM (emu_at 0x401000)))) = 5000 \<and>
   stepSize (snd (stepMany stop_early no_text 100 104 (new_VM (emu_at 0x401000)))) = 5000"
proof -
  let ?v = "new_VM (emu_at 0x401000)"
  have h: "emu_step_many run_all no_text ?v =
      (None, True, ?v\<lparr>emu := fst (run_all (stepSize ?v) (emu ?v))\<rparr>)"
    by (simp add: emu_step_many_def run_all_def)
  have k: "\<not> fst (snd (emu_step_many stop_early no_text ?v))"
    by (simp add: emu_step_many_def stop_early_def)
  have s: "stepSize ?v = 5000" by (simp add: new_VM_def addBreak_def)
  from stepMany_batch_size[where estep_many = run_all and decode = no_text and v = ?v
        and t_start = 100 and t_end = 104]
    stepMany_batch_size[where estep_many = run_all and decode = no_text and v = ?v
        and t_start = 100 and t_end = 110]
    stepMany_batch_size[where estep_many = stop_early and decode = no_text and v = ?v
        and t_start = 100 and t_end = 104] h k
  show ?thesis by (simp add: s)
qed

theorem stepMany_early_stop_counterexample:
  "(104::real) - 100 < 10 \<and>
   stepSize (new_VM (emu_at 0x401000)) = 5000 \<and>
   stepMany stop_early no_text 100 104 (new_VM (emu_at 0x401000)) =
     (Inr True, (new_VM (emu_at 0x401000))\<lparr>emu := (emu_at 0x401001)\<lparr>breaks := {0x40a3a5}\<rparr>\<rparr>) \<and>
   stepSize (snd (stepMany stop_early no_text 100 104 (new_VM (emu_at 0x401000)))) = 5000"
  by (simp add: stepMany_def emu_step_many_def stop_early_def new_VM_def addBreak_def
      breakpoint_add_def emu_at_def checkBreak_def)

section \<open>Facts about the Breakpoint Table\<close>

lemma breaks_add [simp]: "breaks (breakpoint_add a e) = insert a (breaks e)"
  by (simp add: breakpoint_add_def)

lemma breaks_clear [simp]: "breaks (breakpoint_clear a e) = breaks e - {a}"
  by (simp add: breakpoint_clear_def)

lemma eip_add_clear [simp]:
  "eip (breakpoint_add a e) = eip e" "eip (breakpoint_clear a e) = eip e"
  by (simp_all add: breakpoint_add_def breakpoint_clear_def)

lemma toggleBreak_Some:
  assumes "breakpoints v a = Some bp"
  shows "toggleBreak a v =
     Inr (v\<lparr>breakpoints := (breakpoints v)(a \<mapsto> bp\<lparr>disabled := \<not> disabled bp\<rparr>),
            emu := (if disabled bp then breakpoint_add a (emu v)
                    else breakpoint_clear a (emu v))\<rparr>)"
  using assms by (simp add: toggleBreak_def Let_def)

lemma add_clear_restores:
  "a \<notin> breaks e \<Longrightarrow> breakpoint_clear a (breakpoint_add a e) = e"
  "a \<in> breaks e \<Longrightarrow> breakpoint_add a (breakpoint_clear a e) = e"
  by (simp_all add: breakpoint_add_def breakpoint_clear_def insert_absorb)

text \<open>
  C5. On an address that is not registered in the Breakpoint Table, \<open>toggleBreak\<close> fails
  (the failure the spec names NotFound is the TypeError of reading \<open>disabled\<close> of
  \<open>undefined\<close>) and, failing before it writes, leaves everything unchanged. On a
  registered address it flips that breakpoint's \<open>disabled\<close> flag and nothing else in the
  table, and registers the address in the engine exactly when the breakpoint is now
  enabled. A second call restores the table; it restores the whole session state when the
  engine's break set agreed with the table at that address to begin with.
\<close>

theorem toggleBreak_flips_and_restores:
  "(breakpoints v a = None \<longrightarrow> toggleBreak a v = Inl TypeError) \<and>
   (\<forall>bp. breakpoints v a = Some bp \<longrightarrow>
      (case toggleBreak a v of
         Inl e \<Rightarrow> False
       | Inr v1 \<Rightarrow>
           breakpoints v1 = (breakpoints v)(a \<mapsto> bp\<lparr>disabled := \<not> disabled bp\<rparr>) \<and>
           sync_at v1 a \<and>
           (case toggleBreak a v1 of
              Inl e \<Rightarrow> False
            | Inr v2 \<Rightarrow> breakpoints v2 = breakpoints v \<and> (sync_at v a \<longrightarrow> v2 = v))))"
proof (intro conjI allI impI)
  assume "breakpoints v a = None"
  then show "toggleBreak a v = Inl TypeError" by (simp add: toggleBreak_def)
next
  fix bp assume reg: "breakpoints v a = Some bp"
  define bp' where "bp' = bp\<lparr>disabled := \<not> disabled bp\<rparr>"
  define v1 where "v1 = v\<lparr>breakpoints := (breakpoints v)(a \<mapsto> bp'),
            emu := (if disabled bp then breakpoint_add a (emu v)
                    else breakpoint_clear a (emu v))\<rparr>"
  have t1: "toggleBreak a v = Inr v1"
    using toggleBreak_Some[OF reg] by (simp add: v1_def bp'_def)
  have reg1: "breakpoints v1 a = Some bp'" by (simp add: v1_def)
  have undo: "bp'\<lparr>disabled := \<not> disabled bp'\<rparr> = bp" by (simp add: bp'_def)
  define v2 where "v2 = v1\<lparr>breakpoints := (breakpoints v1)(a \<mapsto> bp),
            emu := (if disabled bp' then breakpoint_add a (emu v1)
                    else breakpoint_clear a (emu v1))\<rparr>"
  have t2: "toggleBreak a v1 = Inr v2"
    using toggleBreak_Some[OF reg1] by (simp add: v2_def undo)
  have tab1: "breakpoints v1 = (breakpoints v)(a \<mapsto> bp\<lparr>disabled := \<not> disabled bp\<rparr>)"
    by (simp add: v1_def bp'_def)
  have s1: "sync_at v1 a" by (simp add: sync_at_def v1_def bp'_def)
  have tab2: "breakpoints v2 = breakpoints v"
    using reg by (simp add: v2_def v1_def map_upd_triv)
  have whole: "v2 = v" if "sync_at v a"
  proof -
    from that reg have m: "(a \<in> breaks (emu v)) = (\<not> disabled bp)" by (simp add: sync_at_def)
    have e: "emu v2 = emu v"
    proof (cases "disabled bp")
      case True
      with m have "a \<notin> breaks (emu v)" by simp
      with True show ?thesis by (simp add: v2_def v1_def bp'_def add_clear_restores)
    next
      case False
      with m have "a \<in> breaks (emu v)" by simp
      with False show ?thesis by (simp add: v2_def v1_def bp'_def add_clear_restores)
    qed
    have "v2 = v\<lparr>breakpoints := breakpoints v2, emu := emu v2\<rparr>"
      by (simp add: v2_def v1_def)
    then show ?thesis by (simp add: e tab2)
  qed
  show "case toggleBreak a v of
         Inl e \<Rightarrow> False
       | Inr v1 \<Rightarrow>
           breakpoints v1 = (breakpoints v)(a \<mapsto> bp\<lparr>disabled := \<not> disabled bp\<rparr>) \<and>
           sync_at v1 a \<and>
           (case toggleBreak a v1 of
              Inl e \<Rightarrow> False
            | Inr v2 \<Rightarrow> breakpoints v2 = breakpoints v \<and> (sync_at v a \<longrightarrow> v2 = v))"
    using tab1 s1 tab2 whole by (simp add: t1 t2)
qed

theorem toggleBreak_flips_and_restores_witness:
  "toggleBreak 0x401000 (new_VM (emu_at 0x401000)) = Inl TypeError \<and>
   map_option disabled (breakpoints (projr (toggleBreak 0x40a3a5 (new_VM (emu_at 0x401000)))) 0x40a3a5)
     = Some True \<and>
   toggleBreak 0x40a3a5 (projr (toggleBreak 0x40a3a5 (new_VM (emu_at 0x401000))))
     = Inr (new_VM (emu_at 0x401000))"
proof -
  let ?v = "new_VM (emu_at 0x401000)"
  let ?bp = "\<lparr>addr = 0x40a3a5, disabled = False, oneShot = False, temporary = False\<rparr>"
  have n: "breakpoints ?v 0x401000 = None" by (simp add: new_VM_def addBreak_def)
  have r: "breakpoints ?v 0x40a3a5 = Some ?bp" by (simp add: new_VM_def addBreak_def)
  have s: "sync_at ?v 0x40a3a5" by (simp add: sync_at_def new_VM_def addBreak_def emu_at_def)
  from toggleBreak_flips_and_restores[of ?v "0x401000"] n
  have a: "toggleBreak 0x401000 ?v = Inl TypeError" by simp
  from toggleBreak_flips_and_restores[of ?v "0x40a3a5"] r s
  have b: "case toggleBreak 0x40a3a5 ?v of
         Inl e \<Rightarrow> False
       | Inr v1 \<Rightarrow>
           breakpoints v1 = (breakpoints ?v)(0x40a3a5 \<mapsto> ?bp\<lparr>disabled := True\<rparr>) \<and>
           (case toggleBreak 0x40a3a5 v1 of Inl e \<Rightarrow> False | Inr v2 \<Rightarrow> v2 = ?v)"
    by (auto split: sum.splits)
  from a b show ?thesis by (auto split: sum.splits)
qed














section \<open>Stepping onto breakpoints and past the exit\<close>

lemma step_no_error:
  assumes "emu_step estep decode v = (None, v1)"
  shows "step estep decode v = (Inr (\<not> fst (checkBreak v1)), snd (checkBreak v1))"
  using assms by (simp add: step_def split: prod.splits)

lemma step_error:
  assumes "emu_step estep decode v = (Some e, v1)"
  shows "step estep decode v = (Inl e, v1)"
  using assms by (simp add: step_def)

lemma x86_step_frame:
  "breakpoints0 (x86_step xstep u) = breakpoints0 u"
proof -
  have "breakpoints0 (foldl (\<lambda>s c. host_call0 c s) w cs) = breakpoints0 w" for cs and w :: "'a vm0"
    by (induction cs arbitrary: w) (simp_all add: host_call0_def split: hostcall0.splits)
  then show ?thesis by (simp add: x86_step_def split: prod.splits)
qed

text \<open>
  C3 (amended). Current driver: when the engine call of a step returns normally and ends
  at an address under which an enabled breakpoint with that address is registered, the
  step returns \<open>false\<close>. If no exit code is set by then (the breakpoint is hit) and the
  breakpoint has \<open>oneShot\<close> set, it is absent from the table and from the engine's break
  set when the step returns. If it is hit and \<open>oneShot\<close> is not set, the table is
  unchanged, whatever \<open>temporary\<close> says. If an exit code is set by then, the step stops
  on the exit without looking at the table: the table is unchanged and a one-shot
  breakpoint stays registered.
  Earlier driver: when a step ends at an address under which a breakpoint with that
  address is registered, the step returns \<open>false\<close>. If no exit code is set by then and
  the breakpoint has \<open>temporary\<close> set, it is absent from the table when the step
  returns. If \<open>temporary\<close> is not set, the table is unchanged, whatever \<open>oneShot\<close> says.
  If an exit code is set by then, the table is unchanged.
\<close>

theorem hit_one_shot_breakpoint_is_removed:
  "(breakpoints v a = Some bp \<and> addr bp = a \<and> \<not> disabled bp \<and>
    emu_step estep decode v = (None, v1) \<and> eip (emu v1) = a \<longrightarrow>
      fst (step estep decode v) = Inr False \<and>
      (exitCode v1 = None \<and> oneShot bp \<longrightarrow>
         breakpoints (snd (step estep decode v)) a = None \<and>
         a \<notin> breaks (emu (snd (step estep decode v)))) \<and>
      (exitCode v1 = None \<and> \<not> oneShot bp \<longrightarrow>
         breakpoints (snd (step estep decode v)) = breakpoints v) \<and>
      (exitCode v1 \<noteq> None \<longrightarrow>
         breakpoints (snd (step estep decode v)) = breakpoints v \<and>
         breaks (emu (snd (step estep decode v))) = breaks (emu v1))) \<and>
   (breakpoints0 u a = Some bp \<and> addr bp = a \<and> x86_eip (x86 (x86_step xstep u)) = a \<longrightarrow>
      fst (step0 xstep u) = False \<and>
      (exitCode0 (x86_step xstep u) = None \<and> temporary bp \<longrightarrow>
         breakpoints0 (snd (step0 xstep u)) a = None) \<and>
      (exitCode0 (x86_step xstep u) = None \<and> \<not> temporary bp \<longrightarrow>
         breakpoints0 (snd (step0 xstep u)) = breakpoints0 u) \<and>
      (exitCode0 (x86_step xstep u) \<noteq> None \<longrightarrow>
         breakpoints0 (snd (step0 xstep u)) = breakpoints0 u))"
proof (intro conjI impI)
  assume h: "breakpoints v a = Some bp \<and> addr bp = a \<and> \<not> disabled bp \<and>
    emu_step estep decode v = (None, v1) \<and> eip (emu v1) = a"
  then have es: "emu_step estep decode v = (None, v1)" by simp
  have tab: "breakpoints v1 = breakpoints v" using emu_step_frame[OF es] by simp
  have st: "step estep decode v = (Inr (\<not> fst (checkBreak v1)), snd (checkBreak v1))"
    by (rule step_no_error[OF es])
  have hit: "checkBreak v1 =
      (True, if oneShot bp then delBreak a v1 else v1\<lparr>selectedTab := ''breakpoints''\<rparr>)"
    if "exitCode v1 = None"
    using that h by (simp add: checkBreak_def tab)
  have ex: "checkBreak v1 = (True, v1)" if "exitCode v1 \<noteq> None"
    using that by (simp add: checkBreak_def)
  show "fst (step estep decode v) = Inr False"
    using hit ex by (cases "exitCode v1 = None") (simp_all add: st)
  {
    assume c: "exitCode v1 = None \<and> oneShot bp"
    then show "breakpoints (snd (step estep decode v)) a = None"
      using hit by (simp add: st delBreak_def)
    from c show "a \<notin> breaks (emu (snd (step estep decode v)))"
      using hit by (simp add: st delBreak_def)
  }
  {
    assume c: "exitCode v1 = None \<and> \<not> oneShot bp"
    then show "breakpoints (snd (step estep decode v)) = breakpoints v"
      using hit by (simp add: st tab)
  }
  {
    assume c: "exitCode v1 \<noteq> None"
    then show "breakpoints (snd (step estep decode v)) = breakpoints v"
      using ex by (simp add: st tab)
    from c show "breaks (emu (snd (step estep decode v))) = breaks (emu v1)"
      using ex by (simp add: st)
  }
next
  assume h: "breakpoints0 u a = Some bp \<and> addr bp = a \<and> x86_eip (x86 (x86_step xstep u)) = a"
  let ?u1 = "x86_step xstep u"
  have tab: "breakpoints0 ?u1 = breakpoints0 u" by (rule x86_step_frame)
  have reg: "breakpoints0 ?u1 (x86_eip (x86 ?u1)) = Some bp" using h by (simp add: tab)
  have hit: "step0 xstep u =
      (False, if temporary bp then ?u1\<lparr>breakpoints0 := (breakpoints0 ?u1)(a := None)\<rparr> else ?u1)"
    if "exitCode0 ?u1 = None"
    using that h reg by (simp add: step0_def Let_def)
  have ex: "step0 xstep u = (False, ?u1)" if "exitCode0 ?u1 \<noteq> None"
    using that by (simp add: step0_def Let_def)
  show "fst (step0 xstep u) = False"
    using hit ex by (cases "exitCode0 ?u1 = None") simp_all
  {
    assume "exitCode0 ?u1 = None \<and> temporary bp"
    then show "breakpoints0 (snd (step0 xstep u)) a = None" using hit by simp
  }
  {
    assume "exitCode0 ?u1 = None \<and> \<not> temporary bp"
    then show "breakpoints0 (snd (step0 xstep u)) = breakpoints0 u" using hit by (simp add: tab)
  }
  {
    assume "exitCode0 ?u1 \<noteq> None"
    then show "breakpoints0 (snd (step0 xstep u)) = breakpoints0 u" using ex by (simp add: tab)
  }
qed

theorem hit_one_shot_breakpoint_is_removed_witness:
  "fst (step (jump_to 0x401000) no_text (runTo 0x401000 (new_VM (emu_at 0x400000)))) = Inr False \<and>
   breakpoints (snd (step (jump_to 0x401000) no_text
      (runTo 0x401000 (new_VM (emu_at 0x400000))))) 0x401000 = None \<and>
   fst (step (exit_at 0x401000 3) no_text (runTo 0x401000 (new_VM (emu_at 0x400000)))) = Inr False \<and>
   breakpoints (snd (step (exit_at 0x401000 3) no_text
      (runTo 0x401000 (new_VM (emu_at 0x400000))))) 0x401000 =
     Some \<lparr>addr = 0x401000, disabled = False, oneShot = True, temporary = False\<rparr> \<and>
   fst (step0 (x86_jump_to 0x401000)
          (runTo0 0x401000 (new_VM0 \<lparr>x86_eip = 0x400000, x86_core = ()\<rparr>))) = False \<and>
   breakpoints0 (snd (step0 (x86_jump_to 0x401000)
          (runTo0 0x401000 (new_VM0 \<lparr>x86_eip = 0x400000, x86_core = ()\<rparr>)))) 0x401000 = None \<and>
   breakpoints0 (snd (step0 (x86_jump_to 0x401000)
          ((new_VM0 \<lparr>x86_eip = 0x400000, x86_core = ()\<rparr>)
             \<lparr>breakpoints0 := [0x401000 \<mapsto>
                \<lparr>addr = 0x401000, disabled = False, oneShot = True, temporary = False\<rparr>]\<rparr>)))
       0x401000 =
     Some \<lparr>addr = 0x401000, disabled = False, oneShot = True, temporary = False\<rparr>"
proof -
  let ?v = "runTo 0x401000 (new_VM (emu_at 0x400000))"
  let ?w = "?v\<lparr>emu := (emu ?v)\<lparr>eip := 0x401000\<rparr>\<rparr>"
  let ?x = "?w\<lparr>exitCode := Some 3\<rparr>"
  let ?bp = "\<lparr>addr = 0x401000, disabled = False, oneShot = True, temporary = False\<rparr>"
  let ?u = "runTo0 0x401000 (new_VM0 \<lparr>x86_eip = 0x400000, x86_core = ()\<rparr>)"
  let ?tbp = "\<lparr>addr = 0x401000, disabled = False, oneShot = False, temporary = True\<rparr>"
  have reg: "breakpoints ?v 0x401000 = Some ?bp"
    by (simp add: runTo_def addBreak_def new_VM_def)
  have h1: "breakpoints ?v 0x401000 = Some ?bp \<and> addr ?bp = 0x401000 \<and> \<not> disabled ?bp \<and>
      emu_step (jump_to 0x401000) no_text ?v = (None, ?w) \<and> eip (emu ?w) = 0x401000"
    by (intro conjI) (simp_all add: runTo_def addBreak_def new_VM_def emu_step_def jump_to_def)
  have c1: "exitCode ?w = None \<and> oneShot ?bp"
    by (simp add: runTo_def addBreak_def new_VM_def)
  have h2: "breakpoints ?v 0x401000 = Some ?bp \<and> addr ?bp = 0x401000 \<and> \<not> disabled ?bp \<and>
      emu_step (exit_at 0x401000 3) no_text ?v = (None, ?x) \<and> eip (emu ?x) = 0x401000"
    by (intro conjI)
      (simp_all add: runTo_def addBreak_def new_VM_def emu_step_def exit_at_def host_call_def
        exit_def)
  have c2: "exitCode ?x \<noteq> None" by simp
  have h3: "breakpoints0 ?u 0x401000 = Some ?tbp \<and> addr ?tbp = 0x401000 \<and>
      x86_eip (x86 (x86_step (x86_jump_to 0x401000) ?u)) = 0x401000"
    by (intro conjI) (simp_all add: runTo0_def new_VM0_def x86_step_def x86_jump_to_def)
  have c3: "exitCode0 (x86_step (x86_jump_to 0x401000) ?u) = None \<and> temporary ?tbp"
    by (simp add: runTo0_def new_VM0_def x86_step_def x86_jump_to_def)
  note t1 = hit_one_shot_breakpoint_is_removed[where v = ?v and a = "0x401000" and bp = ?bp
      and estep = "jump_to 0x401000" and decode = no_text and ?v1.0 = ?w
      and u = ?u and xstep = "x86_jump_to 0x401000"]
  note t2 = hit_one_shot_breakpoint_is_removed[where v = ?v and a = "0x401000" and bp = ?bp
      and estep = "exit_at 0x401000 3" and decode = no_text and ?v1.0 = ?x
      and u = ?u and xstep = "x86_jump_to 0x401000"]
  note t3 = hit_one_shot_breakpoint_is_removed[where u = ?u and a = "0x401000" and bp = ?tbp
      and xstep = "x86_jump_to 0x401000" and v = ?v and estep = "jump_to 0x401000"
      and decode = no_text and ?v1.0 = ?w]
  from t1 h1 c1 have a: "fst (step (jump_to 0x401000) no_text ?v) = Inr False"
    and b: "breakpoints (snd (step (jump_to 0x401000) no_text ?v)) 0x401000 = None"
    by blast+
  from t2 h2 c2 have c: "fst (step (exit_at 0x401000 3) no_text ?v) = Inr False"
    and d: "breakpoints (snd (step (exit_at 0x401000 3) no_text ?v)) = breakpoints ?v"
    by blast+
  from t3 h3 c3 have e: "fst (step0 (x86_jump_to 0x401000) ?u) = False"
    and f: "breakpoints0 (snd (step0 (x86_jump_to 0x401000) ?u)) 0x401000 = None"
    by blast+
  let ?o = "(new_VM0 \<lparr>x86_eip = 0x400000, x86_core = ()\<rparr>)
             \<lparr>breakpoints0 := [0x401000 \<mapsto> ?bp]\<rparr>"
  have h4: "breakpoints0 ?o 0x401000 = Some ?bp \<and> addr ?bp = 0x401000 \<and>
      x86_eip (x86 (x86_step (x86_jump_to 0x401000) ?o)) = 0x401000"
    by (intro conjI) (simp_all add: new_VM0_def x86_step_def x86_jump_to_def)
  have c4: "exitCode0 (x86_step (x86_jump_to 0x401000) ?o) = None \<and> \<not> temporary ?bp"
    by (simp add: new_VM0_def x86_step_def x86_jump_to_def)
  note t4 = hit_one_shot_breakpoint_is_removed[where u = ?o and a = "0x401000" and bp = ?bp
      and xstep = "x86_jump_to 0x401000" and v = ?v and estep = "jump_to 0x401000"
      and decode = no_text and ?v1.0 = ?w]
  from t4 h4 c4
  have g: "breakpoints0 (snd (step0 (x86_jump_to 0x401000) ?o)) = breakpoints0 ?o"
    by blast
  from a b c d e f g reg show ?thesis by simp
qed

theorem temporary_flag_ignored_counterexample:
  "step (jump_to 0x401000) no_text
      (addBreak \<lparr>addr = 0x401000, disabled = False, oneShot = False, temporary = True\<rparr>
         (new_VM (emu_at 0x400000))) =
     (Inr False,
      (addBreak \<lparr>addr = 0x401000, disabled = False, oneShot = False, temporary = True\<rparr>
         (new_VM (emu_at 0x400000)))
      \<lparr>emu := (emu_at 0x401000)\<lparr>breaks := {0x401000, 0x40a3a5}\<rparr>,
        selectedTab := ''breakpoints''\<rparr>) \<and>
   breakpoints (snd (step (jump_to 0x401000) no_text
      (addBreak \<lparr>addr = 0x401000, disabled = False, oneShot = False, temporary = True\<rparr>
         (new_VM (emu_at 0x400000))))) 0x401000 =
     Some \<lparr>addr = 0x401000, disabled = False, oneShot = False, temporary = True\<rparr>"
  by (simp add: step_def emu_step_def jump_to_def addBreak_def new_VM_def
        checkBreak_def breakpoint_add_def emu_at_def)

text \<open>
  C2 (amended). A \<open>step\<close> call made after \<open>exitCode\<close> has been set still runs the
  engine's \<open>step\<close> once, host callbacks included; it is not a no-op. It never returns
  \<open>true\<close>: when the engine call returns normally, \<open>step\<close> returns \<open>false\<close>. It
  leaves the Breakpoint Table, the selected tab, the batch size and the rate average
  unchanged, and \<open>exitCode\<close> stays set.
\<close>

theorem step_after_exit_stops:
  assumes "exitCode v \<noteq> None"
  shows "fst (step estep decode v) \<noteq> Inr True \<and>
         (fst (emu_step estep decode v) = None \<longrightarrow> fst (step estep decode v) = Inr False) \<and>
         emu (snd (step estep decode v)) = fst (estep (emu v)) \<and>
         breakpoints (snd (step estep decode v)) = breakpoints v \<and>
         selectedTab (snd (step estep decode v)) = selectedTab v \<and>
         stepSize (snd (step estep decode v)) = stepSize v \<and>
         instrPerMs (snd (step estep decode v)) = instrPerMs v \<and>
         exitCode (snd (step estep decode v)) \<noteq> None"
proof -
  obtain err v1 where es: "emu_step estep decode v = (err, v1)"
    by (cases "emu_step estep decode v")
  note fr = emu_step_frame[OF es]
  have ex: "exitCode v1 \<noteq> None" using fr(6) assms by simp
  then have cb: "checkBreak v1 = (True, v1)" by (simp add: checkBreak_def)
  show ?thesis
  proof (cases err)
    case None
    with es have "step estep decode v = (Inr False, v1)"
      by (simp add: step_no_error cb)
    then show ?thesis using fr(1-5) ex es None by simp
  next
    case (Some e)
    with es have "step estep decode v = (Inl e, v1)" by (simp add: step_error)
    then show ?thesis using fr(1-5) ex es Some by simp
  qed
qed

theorem step_after_exit_stops_witness:
  "fst (step next_instr no_text (exit 3 (new_VM (emu_at 0x401000)))) = Inr False \<and>
   exitCode (snd (step next_instr no_text (exit 3 (new_VM (emu_at 0x401000))))) \<noteq> None \<and>
   breakpoints (snd (step next_instr no_text (exit 3 (new_VM (emu_at 0x401000))))) =
     breakpoints (exit 3 (new_VM (emu_at 0x401000)))"
proof -
  let ?v = "exit 3 (new_VM (emu_at 0x401000))"
  have h: "exitCode ?v \<noteq> None" by (simp add: exit_def)
  have n: "fst (emu_step next_instr no_text ?v) = None"
    by (simp add: emu_step_def next_instr_def)
  from step_after_exit_stops[OF h, of next_instr no_text] n show ?thesis by simp
qed

theorem step_after_exit_runs_engine_counterexample:
  "exitCode (exit 3 (new_VM (emu_at 0x401000))) = Some 3 \<and>
   eip (emu (exit 3 (new_VM (emu_at 0x401000)))) = 0x401000 \<and>
   step next_instr no_text (exit 3 (new_VM (emu_at 0x401000))) =
     (Inr False, exit 3 (new_VM (emu_at 0x401001))) \<and>
   eip (emu (snd (step next_instr no_text (exit 3 (new_VM (emu_at 0x401000)))))) = 0x401001"
  by (simp add: step_def emu_step_def next_instr_def exit_def new_VM_def addBreak_def
      checkBreak_def emu_at_def breakpoint_add_def)

lemma create_surface_primary_windows:
  assumes "windows v = ws @ [w0]"
  shows "create_surface w h True v =
     Inr (Suc (length (surfaces v)),
          v\<lparr>surfaces := snd (new_Surface w h True (surfaces v)),
            windows := ws @ [w0\<lparr>surface := Some (Suc (length (surfaces v)))\<rparr>]\<rparr>)"
proof -
  let ?r = "Suc (length (surfaces v))"
  have ne: "windows v \<noteq> []" using assms by simp
  have "create_surface w h True v =
     Inr (?r, v\<lparr>surfaces := snd (new_Surface w h True (surfaces v)),
                windows := (windows v)[length (windows v) - 1 :=
                   (windows v ! (length (windows v) - 1))\<lparr>surface := Some ?r\<rparr>]\<rparr>)"
    using ne by (cases "windows v") (simp_all add: create_surface_def new_Surface_primary)
  moreover have "(windows v)[length (windows v) - 1 :=
               (windows v ! (length (windows v) - 1))\<lparr>surface := Some ?r\<rparr>]
             = ws @ [w0\<lparr>surface := Some ?r\<rparr>]"
    by (simp add: assms)
  ultimately show ?thesis by simp
qed

text \<open>
  C10. A \<open>create_surface\<close> call with \<open>primary=true\<close> succeeds when at least one window
  has been created: it returns the new primary surface and binds it to the window
  created last, leaving every other window as it was. With no window created it raises
  (a TypeError) instead of returning a surface. \<open>create_window\<close> appends the new
  window, so after one \<open>create_window\<close> call the error branch cannot be taken, and the
  surface goes to the window that call returned.
\<close>

theorem create_surface_binds_last_window:
  "(windows v \<noteq> [] \<longrightarrow>
      (case create_surface w h True v of
         Inl e \<Rightarrow> False
       | Inr (r, v') \<Rightarrow>
           primary_of (surfaces v') r (length (surfaces v)) \<and>
           cv_width (canvas (surfaces v' ! r)) = w \<and> cv_height (canvas (surfaces v' ! r)) = h \<and>
           windows v' = butlast (windows v) @ [(last (windows v))\<lparr>surface := Some r\<rparr>])) \<and>
   (windows v = [] \<longrightarrow> create_surface w h True v = Inl TypeError) \<and>
   (case create_window v of
      (i, v1) \<Rightarrow>
        i = length (windows v) \<and>
        windows v1 = windows v @ [\<lparr>key = Suc i, title = [], width = 0, height = 0, surface = None\<rparr>] \<and>
        (case create_surface w h True v1 of
           Inl e \<Rightarrow> False
         | Inr (r, v2) \<Rightarrow> length (windows v2) = Suc i \<and> surface (windows v2 ! i) = Some r \<and>
             key (windows v2 ! i) = Suc i))"
proof (intro conjI impI)
  assume ne: "windows v \<noteq> []"
  then have sp: "windows v = butlast (windows v) @ [last (windows v)]" by simp
  have pr: "primary_of (snd (new_Surface w h True (surfaces v))) (Suc (length (surfaces v)))
      (length (surfaces v))"
    by (rule primary_of_new_Surface) (simp add: new_Surface_primary)
  have dims: "cv_width (canvas (snd (new_Surface w h True (surfaces v)) ! Suc (length (surfaces v)))) = w"
    "cv_height (canvas (snd (new_Surface w h True (surfaces v)) ! Suc (length (surfaces v)))) = h"
    by (simp_all add: new_Surface_primary nth_append blank_dims)
  show "case create_surface w h True v of
         Inl e \<Rightarrow> False
       | Inr (r, v') \<Rightarrow>
           primary_of (surfaces v') r (length (surfaces v)) \<and>
           cv_width (canvas (surfaces v' ! r)) = w \<and> cv_height (canvas (surfaces v' ! r)) = h \<and>
           windows v' = butlast (windows v) @ [(last (windows v))\<lparr>surface := Some r\<rparr>]"
    using pr dims by (simp add: create_surface_primary_windows[OF sp])
next
  assume "windows v = []"
  then show "create_surface w h True v = Inl TypeError"
    by (simp add: create_surface_def split: prod.splits)
next
  let ?nw = "\<lparr>key = Suc (length (windows v)), title = [], width = 0, height = 0, surface = None\<rparr>"
  let ?v1 = "v\<lparr>windows := windows v @ [?nw]\<rparr>"
  have cw: "create_window v = (length (windows v), ?v1)"
    by (simp add: create_window_def Let_def)
  have w1: "windows ?v1 = windows v @ [?nw]" by simp
  have cs: "create_surface w h True ?v1 =
     Inr (Suc (length (surfaces ?v1)),
          ?v1\<lparr>surfaces := snd (new_Surface w h True (surfaces ?v1)),
            windows := windows v @ [?nw\<lparr>surface := Some (Suc (length (surfaces ?v1)))\<rparr>]\<rparr>)"
    by (rule create_surface_primary_windows[OF w1])
  show "case create_window v of
      (i, v1) \<Rightarrow>
        i = length (windows v) \<and>
        windows v1 = windows v @ [\<lparr>key = Suc i, title = [], width = 0, height = 0, surface = None\<rparr>] \<and>
        (case create_surface w h True v1 of
           Inl e \<Rightarrow> False
         | Inr (r, v2) \<Rightarrow> length (windows v2) = Suc i \<and> surface (windows v2 ! i) = Some r \<and>
             key (windows v2 ! i) = Suc i)"
    unfolding cw by (simp add: cs)
qed

theorem create_surface_binds_last_window_witness:
  "create_surface 640 480 True (new_VM (emu_at 0x401000)) = Inl TypeError \<and>
   map surface (windows (snd (projr (create_surface 640 480 True
      (snd (create_window (snd (create_window (new_VM (emu_at 0x401000))))))))))
     = [None, Some 1] \<and>
   fst (projr (create_surface 640 480 True
      (snd (create_window (snd (create_window (new_VM (emu_at 0x401000)))))))) = 1"
proof -
  let ?v0 = "new_VM (emu_at 0x401000)"
  let ?v2 = "snd (create_window (snd (create_window ?v0)))"
  have e: "windows ?v0 = []" "surfaces ?v0 = []" by (simp_all add: new_VM_def addBreak_def)
  have w2: "windows ?v2 =
      [\<lparr>key = 1, title = [], width = 0, height = 0, surface = None\<rparr>,
       \<lparr>key = 2, title = [], width = 0, height = 0, surface = None\<rparr>]"
    "surfaces ?v2 = []"
    by (simp_all add: create_window_def Let_def e)
  have ne: "windows ?v2 \<noteq> []" by (simp add: w2)
  from create_surface_binds_last_window[of ?v0 640 480] e
  have a: "create_surface 640 480 True ?v0 = Inl TypeError" by simp
  from create_surface_binds_last_window[of ?v2 640 480] ne
  have b: "case create_surface 640 480 True ?v2 of
         Inl e \<Rightarrow> False
       | Inr (r, v') \<Rightarrow>
           primary_of (surfaces v') r 0 \<and>
           windows v' = butlast (windows ?v2) @ [(last (windows ?v2))\<lparr>surface := Some r\<rparr>]"
    by (auto simp add: w2(2) split: sum.splits)
  have c: "fst (projr (create_surface 640 480 True ?v2)) = 1"
    by (simp add: create_surface_def new_Surface_primary w2 split: list.splits)
  from b c have d: "map surface (windows (snd (projr (create_surface 640 480 True ?v2)))) = [None, Some 1]"
    by (auto simp add: w2(1) split: sum.splits)
  from a c d show ?thesis by simp
qed

end
